theory Spec2Isabelle
  imports
    Main
    "HOL-Library.FSet"
    "HOL-Library.Finite_Map"
    "HOL-Library.Char_ord"
    "HOL-Library.List_Lexorder"
begin

section \<open>TOGA sanity checks: the cross-file consistency and filtering checkers\<close>

text \<open>
  A shallow embedding of \<^verbatim>\<open>modules/toga_sanity_checks.py\<close> (class
  \<^verbatim>\<open>TogaSanityChecker\<close>): \<^verbatim>\<open>check_2bit_file_completeness\<close>,
  \<^verbatim>\<open>check_and_write_u12_file\<close>, \<^verbatim>\<open>check_isoforms_file\<close> and
  \<^verbatim>\<open>check_chains_classified\<close>.

  Conventions of the embedding.
  \<^item> A Python \<^verbatim>\<open>str\<close> is a \<^typ>\<open>string\<close>; a character is one of HOL's 256
    characters, read as the code point of the same number (the Latin-1 range of Python's
    \<^verbatim>\<open>str\<close>).
  \<^item> A Python \<^verbatim>\<open>set\<close> is a finite set (\<^typ>\<open>string fset\<close>), a \<^verbatim>\<open>dict\<close> a finite
    map (\<^typ>\<open>(string, 'v) fmap\<close>). The order in which Python iterates over a set is not
    fixed by the language; every function that iterates over a set takes that order as
    its first argument \<open>set_order\<close>.
  \<^item> Every \<^verbatim>\<open>raise\<close> is an \<open>Inl\<close> result; a function that returns nothing
    returns \<open>Inr ()\<close>, one that returns a path or \<^verbatim>\<open>None\<close> returns
    \<open>Inr (Some path)\<close> or \<open>Inr None\<close>.
  \<^item> The file system is a record of the files, a map from a path to the characters of
    the file, and of the directories that exist; a function that writes returns the new
    file system. Files are opened in text mode with the default \<^verbatim>\<open>newline=None\<close>:
    reading translates the line terminators CR LF and CR to LF (universal newlines),
    writing leaves LF as it is (\<^verbatim>\<open>os.linesep\<close> of POSIX). Opening a file for writing
    fails when its directory does not exist or when the path is a directory.
  \<^item> \<^verbatim>\<open>to_log\<close> (imported from \<^verbatim>\<open>modules.common\<close>) only appends to the run's
    log; the log is not part of the model.
\<close>

subsection \<open>Errors\<close>

datatype error =
    ValueError string
  | EOFError string
  | FileNotFoundError string
  | IsADirectoryError string
  | IndexError
  | KeyError string

subsection \<open>Python string operations used by the checkers\<close>

text \<open>\<^verbatim>\<open>str.isspace\<close> on one character: TAB, LF, VT, FF, CR, the four separators
  U+001C .. U+001F, SPACE, NEL (U+0085) and NBSP (U+00A0).\<close>

definition isspace_char :: "char \<Rightarrow> bool" where
  "isspace_char c =
     ((of_char c :: nat) \<in> {9, 10, 11, 12, 13, 28, 29, 30, 31, 32, 133, 160})"

text \<open>\<^verbatim>\<open>s.rstrip()\<close>: drop the trailing whitespace.\<close>

definition rstrip :: "string \<Rightarrow> string" where
  "rstrip s = rev (dropWhile isspace_char (rev s))"

text \<open>\<^verbatim>\<open>s.split(sep)\<close> for a one-character separator: every occurrence splits, and
  the result has at least one field.\<close>

fun split_on :: "char \<Rightarrow> string \<Rightarrow> string list" where
  "split_on sep [] = [[]]"
| "split_on sep (c # cs) =
     (if c = sep then [] # split_on sep cs
      else (case split_on sep cs of
              [] \<Rightarrow> [[c]]
            | fld # flds \<Rightarrow> (c # fld) # flds))"

text \<open>\<^verbatim>\<open>str.isnumeric\<close> on one character: the decimal digits, the superscripts
  U+00B2, U+00B3, U+00B9 and the fractions U+00BC .. U+00BE.\<close>

definition isnumeric_char :: "char \<Rightarrow> bool" where
  "isnumeric_char c =
     (let n = (of_char c :: nat)
      in (48 \<le> n \<and> n \<le> 57) \<or> n \<in> {178, 179, 185, 188, 189, 190})"

text \<open>\<^verbatim>\<open>s.isnumeric()\<close>: at least one character, all of them numeric.\<close>

definition isnumeric :: "string \<Rightarrow> bool" where
  "isnumeric s = (s \<noteq> [] \<and> list_all isnumeric_char s)"

text \<open>\<^verbatim>\<open>sep.join(xs)\<close>.\<close>

fun join_str :: "string \<Rightarrow> string list \<Rightarrow> string" where
  "join_str sep [] = []"
| "join_str sep [x] = x"
| "join_str sep (x # y # ys) = x @ sep @ join_str sep (y # ys)"

text \<open>\<^verbatim>\<open>str(n)\<close> for an integer, as an f-string renders it.\<close>

definition digit_char :: "nat \<Rightarrow> char" where
  "digit_char d = ''0123456789'' ! d"

fun str_nat :: "nat \<Rightarrow> string" where
  "str_nat n =
     (if n < 10 then [digit_char n] else str_nat (n div 10) @ [digit_char (n mod 10)])"

declare str_nat.simps [simp del]

definition str_int :: "int \<Rightarrow> string" where
  "str_int i = (if i < 0 then CHR ''-'' # str_nat (nat (- i)) else str_nat (nat i))"

text \<open>\<^verbatim>\<open>os.path.join(a, b)\<close> (POSIX) for two components.\<close>

definition os_path_join :: "string \<Rightarrow> string \<Rightarrow> string" where
  "os_path_join a b =
     (if b \<noteq> [] \<and> hd b = CHR ''/'' then b
      else if a = [] \<or> last a = CHR ''/'' then a @ b
      else a @ ''/'' @ b)"

text \<open>\<^verbatim>\<open>os.path.dirname(p)\<close> (POSIX): the part of \<open>p\<close> up to its last slash, without
  the trailing slashes unless it consists of slashes only.\<close>

definition os_path_dirname :: "string \<Rightarrow> string" where
  "os_path_dirname p =
     (let head = rev (dropWhile (\<lambda>c. c \<noteq> CHR ''/'') (rev p))
      in if head \<noteq> [] \<and> \<not> list_all (\<lambda>c. c = CHR ''/'') head
         then rev (dropWhile (\<lambda>c. c = CHR ''/'') (rev head))
         else head)"

subsection \<open>Files\<close>

text \<open>The state of the file system: the characters of every file, and the paths that
  are directories. The empty path stands for the current directory, as it does for
  \<^verbatim>\<open>os.path.dirname\<close> of a bare file name.\<close>

record filesystem =
  files :: "string \<rightharpoonup> string"
  dirs :: "string set"

text \<open>Universal newlines: what text-mode reading makes of the characters of a file.\<close>

fun universal_newlines :: "string \<Rightarrow> string" where
  "universal_newlines [] = []"
| "universal_newlines [c] = (if c = CHR 0x0D then [CHR 0x0A] else [c])"
| "universal_newlines (c # d # cs) =
     (if c = CHR 0x0D \<and> d = CHR 0x0A then CHR 0x0A # universal_newlines cs
      else if c = CHR 0x0D then CHR 0x0A # universal_newlines (d # cs)
      else c # universal_newlines (d # cs))"

text \<open>Iterating over a text yields its lines, each with its terminating newline; the
  last line has none when the text does not end with one.\<close>

fun file_lines :: "string \<Rightarrow> string list" where
  "file_lines [] = []"
| "file_lines (c # cs) =
     (if c = CHR 0x0A then [c] # file_lines cs
      else (case file_lines cs of
              [] \<Rightarrow> [[c]]
            | l # ls \<Rightarrow> (c # l) # ls))"

text \<open>The lines that iterating over a file with the characters \<open>content\<close> yields.\<close>

definition read_lines :: "string \<Rightarrow> string list" where
  "read_lines content = file_lines (universal_newlines content)"

text \<open>\<^verbatim>\<open>open(path, "r")\<close> followed by reading the lines.\<close>

definition open_read :: "filesystem \<Rightarrow> string \<Rightarrow> error + string list" where
  "open_read fs path =
     (case files fs path of
        None \<Rightarrow>
          if path \<in> dirs fs then Inl (IsADirectoryError path)
          else Inl (FileNotFoundError path)
      | Some content \<Rightarrow> Inr (read_lines content))"

text \<open>\<^verbatim>\<open>open(path, "w")\<close> raises \<^verbatim>\<open>IsADirectoryError\<close> when the path is a
  directory and \<^verbatim>\<open>FileNotFoundError\<close> when the directory of the path does not exist;
  otherwise it creates the file or empties it.\<close>

definition can_open_write :: "filesystem \<Rightarrow> string \<Rightarrow> bool" where
  "can_open_write fs path = (path \<notin> dirs fs \<and> os_path_dirname path \<in> dirs fs)"

definition open_write :: "filesystem \<Rightarrow> string \<Rightarrow> error + filesystem" where
  "open_write fs path =
     (if path \<in> dirs fs then Inl (IsADirectoryError path)
      else if os_path_dirname path \<notin> dirs fs then Inl (FileNotFoundError path)
      else Inr (fs\<lparr>files := (files fs)(path \<mapsto> [])\<rparr>))"

text \<open>\<^verbatim>\<open>f.write(text)\<close> appends to what has been written to the file.\<close>

definition file_write :: "filesystem \<Rightarrow> string \<Rightarrow> string \<Rightarrow> filesystem" where
  "file_write fs path text =
     fs\<lparr>files := (files fs)(path \<mapsto>
          (case files fs path of None \<Rightarrow> text | Some written \<Rightarrow> written @ text))\<rparr>"

subsection \<open>Iterating over a set\<close>

text \<open>\<^verbatim>\<open>list(s)\<close> and \<^verbatim>\<open>for x in s\<close> visit every element of the set \<open>s\<close> once, in
  an order the language does not fix. An iteration order is a function from a set to the
  list of its elements in the order of the visit.\<close>

definition set_order_ok :: "(string fset \<Rightarrow> string list) \<Rightarrow> bool" where
  "set_order_ok set_order =
     (\<forall>s. distinct (set_order s) \<and> fset_of_list (set_order s) = s)"

subsection \<open>\<^verbatim>\<open>check_chains_classified\<close>\<close>

text \<open>\<^verbatim>\<open>sum(1 for _ in islice(f, 2)) > 1\<close>: count at most the first two lines.\<close>

definition has_more_than_one_line :: "filesystem \<Rightarrow> string \<Rightarrow> error + bool" where
  "has_more_than_one_line fs file_path =
     (case open_read fs file_path of
        Inl e \<Rightarrow> Inl e
      | Inr f \<Rightarrow> Inr (length (take 2 f) > 1))"

definition chains_empty_msg :: "string \<Rightarrow> string" where
  "chains_empty_msg chain_results_df =
     ''Chain results file '' @ chain_results_df @ '' is empty! Abort.''"

definition check_chains_classified :: "filesystem \<Rightarrow> string \<Rightarrow> error + unit" where
  "check_chains_classified fs chain_results_df =
     (case has_more_than_one_line fs chain_results_df of
        Inl e \<Rightarrow> Inl e
      | Inr is_complete \<Rightarrow>
          if is_complete = False then Inl (ValueError (chains_empty_msg chain_results_df))
          else Inr ())"

subsection \<open>\<^verbatim>\<open>check_and_write_u12_file\<close>\<close>

definition U12_FILE_COLS :: nat where
  "U12_FILE_COLS = 3"

definition U12_AD_FIELD :: "string set" where
  "U12_AD_FIELD = {''A'', ''D''}"

text \<open>\<^verbatim>\<open>line.rstrip().split("\t")\<close>.\<close>

definition u12_fields :: "string \<Rightarrow> string list" where
  "u12_fields line = split_on (CHR 0x09) (rstrip line)"

definition u12_cols_msg :: "string \<Rightarrow> nat \<Rightarrow> nat \<Rightarrow> string" where
  "u12_cols_msg u12_arg num got =
     ''Error! U12 file '' @ u12_arg @ '' line '' @ str_nat num
       @ '' is corrupted, 3 fields expected; ''
       @ ''Got '' @ str_nat got @ ''; please note that a tab-separated file expected''"

definition u12_field2_msg :: "string \<Rightarrow> nat \<Rightarrow> string \<Rightarrow> string" where
  "u12_field2_msg u12_arg num exon_num =
     ''Error! U12 file '' @ u12_arg @ '' line '' @ str_nat num @ '' is corrupted, ''
       @ ''field 2 value is '' @ exon_num @ ''; This field must ''
       @ ''contain a numeric value (exon number).''"

definition u12_field3_msg :: "string \<Rightarrow> nat \<Rightarrow> string \<Rightarrow> string" where
  "u12_field3_msg u12_arg num acc_don =
     ''Error! U12 file '' @ u12_arg @ '' line '' @ str_nat num
       @ '' is corrupted, field 3 value is '' @ acc_don
       @ ''; This field could have either A or D value.''"

definition u12_empty_msg :: "string \<Rightarrow> string" where
  "u12_empty_msg u12_arg =
     ''Error! No lines left in the '' @ u12_arg @ '' file after filter.''
       @ ''Please check that transcript IDs in this file and input bed file are consistent''"

text \<open>The loop \<^verbatim>\<open>for num, line in enumerate(f, 1)\<close>: \<open>num\<close> is the number of the
  line at the head of the remaining lines, \<open>filt_lines\<close> the lines saved so far.\<close>

fun u12_read_lines ::
  "string \<Rightarrow> string fset \<Rightarrow> nat \<Rightarrow> string list \<Rightarrow> string list \<Rightarrow> error + string list"
where
  "u12_read_lines u12_arg t_in_bed num [] filt_lines = Inr filt_lines"
| "u12_read_lines u12_arg t_in_bed num (line # f) filt_lines =
     (let line_data = u12_fields line in
      if length line_data \<noteq> U12_FILE_COLS
      then Inl (ValueError (u12_cols_msg u12_arg num (length line_data)))
      else
        let trans_id = line_data ! 0 in
        if trans_id |\<notin>| t_in_bed
        then u12_read_lines u12_arg t_in_bed (num + 1) f filt_lines
        else
          let exon_num = line_data ! 1 in
          if \<not> isnumeric exon_num
          then Inl (ValueError (u12_field2_msg u12_arg num exon_num))
          else
            let acc_don = line_data ! 2 in
            if acc_don \<notin> U12_AD_FIELD
            then Inl (ValueError (u12_field3_msg u12_arg num acc_don))
            else u12_read_lines u12_arg t_in_bed (num + 1) f (filt_lines @ [line]))"

definition check_and_write_u12_file ::
  "filesystem \<Rightarrow> string option \<Rightarrow> string fset \<Rightarrow> string
     \<Rightarrow> (error + string option) \<times> filesystem"
where
  "check_and_write_u12_file fs u12_arg t_in_bed temp_wd =
     (case u12_arg of
        None \<Rightarrow> (Inr None, fs)
      | Some u12_path \<Rightarrow>
          let u12_saved_file = os_path_join temp_wd ''u12_data.txt'' in
          (case open_read fs u12_path of
             Inl e \<Rightarrow> (Inl e, fs)
           | Inr f \<Rightarrow>
               (case u12_read_lines u12_path t_in_bed 1 f [] of
                  Inl e \<Rightarrow> (Inl e, fs)
                | Inr filt_lines \<Rightarrow>
                    if length filt_lines = 0
                    then (Inl (ValueError (u12_empty_msg u12_path)), fs)
                    else
                      (case open_write fs u12_saved_file of
                         Inl e \<Rightarrow> (Inl e, fs)
                       | Inr fs1 \<Rightarrow>
                           (Inr (Some u12_saved_file),
                            file_write fs1 u12_saved_file (concat filt_lines))))))"

subsection \<open>\<^verbatim>\<open>check_2bit_file_completeness\<close>\<close>

definition missing_chroms_msg :: "string \<Rightarrow> string \<Rightarrow> string \<Rightarrow> string" where
  "missing_chroms_msg two_bit_file chrom_file missing_str =
     ''Error! 2bit file: '' @ two_bit_file @ ''; chain/bed file: '' @ chrom_file @ ''; ''
       @ ''Some chromosomes present in the chain/bed file are not found in the ''
       @ ''Two bit file. First <=100: '' @ missing_str"

definition sizes_mismatch_msg :: "string \<Rightarrow> string \<Rightarrow> string \<Rightarrow> int \<Rightarrow> int \<Rightarrow> string" where
  "sizes_mismatch_msg two_bit_file chrom_file chrom twobit_seq_len comp_file_seq_len =
     ''Error! 2bit file: '' @ two_bit_file @ ''; chain_file: '' @ chrom_file @ '' ''
       @ ''Chromosome: '' @ chrom @ ''; Sizes don't match! ''
       @ ''Size in twobit: '' @ str_int twobit_seq_len
       @ ''; size in chain: '' @ str_int comp_file_seq_len"

text \<open>The loop \<^verbatim>\<open>for chrom in intersection\<close>, over the chromosomes in the order of
  the iteration. A size \<open>None\<close> in \<open>chroms_sizes\<close> is Python's \<^verbatim>\<open>None\<close>: the
  chromosome comes from a bed file and has no known length.\<close>

fun check_sizes ::
  "string \<Rightarrow> string \<Rightarrow> (string, int) fmap \<Rightarrow> (string, int option) fmap \<Rightarrow> string list
     \<Rightarrow> error + unit"
where
  "check_sizes two_bit_file chrom_file twobit_seq_to_size chroms_sizes [] = Inr ()"
| "check_sizes two_bit_file chrom_file twobit_seq_to_size chroms_sizes (chrom # rest) =
     (case fmlookup twobit_seq_to_size chrom of
        None \<Rightarrow> Inl (KeyError chrom)
      | Some twobit_seq_len \<Rightarrow>
          (case fmlookup chroms_sizes chrom of
             None \<Rightarrow> Inl (KeyError chrom)
           | Some None \<Rightarrow>
               check_sizes two_bit_file chrom_file twobit_seq_to_size chroms_sizes rest
           | Some (Some comp_file_seq_len) \<Rightarrow>
               if twobit_seq_len = comp_file_seq_len
               then check_sizes two_bit_file chrom_file twobit_seq_to_size chroms_sizes rest
               else Inl (ValueError
                      (sizes_mismatch_msg two_bit_file chrom_file chrom
                         twobit_seq_len comp_file_seq_len))))"

text \<open>\<open>sequence_sizes\<close> is the outcome of \<^verbatim>\<open>TwoBitFile(two_bit_file)\<close> followed by
  \<^verbatim>\<open>sequence_sizes()\<close> (the reader of the \<^verbatim>\<open>twobitreader\<close> package): the map from
  a sequence name to its length, or the exception raised. An \<^verbatim>\<open>EOFError\<close> is caught
  and raised again as a \<^verbatim>\<open>ValueError\<close> with the same text.\<close>

definition check_2bit_file_completeness ::
  "(string fset \<Rightarrow> string list) \<Rightarrow> error + (string, int) fmap
     \<Rightarrow> string \<Rightarrow> (string, int option) fmap \<Rightarrow> string \<Rightarrow> error + unit"
where
  "check_2bit_file_completeness set_order sequence_sizes two_bit_file chroms_sizes chrom_file =
     (case sequence_sizes of
        Inl (EOFError err) \<Rightarrow> Inl (ValueError err)
      | Inl e \<Rightarrow> Inl e
      | Inr twobit_seq_to_size \<Rightarrow>
          let twobit_sequences = fmdom twobit_seq_to_size;
              check_chroms = fmdom chroms_sizes;
              intersection = twobit_sequences |\<inter>| check_chroms;
              chroms_not_in_2bit = check_chroms |-| twobit_sequences
          in
          if fcard chroms_not_in_2bit > 0
          then
            let missing_top_100 = take 100 (set_order chroms_not_in_2bit);
                missing_str = join_str [CHR 0x0A] missing_top_100
            in Inl (ValueError (missing_chroms_msg two_bit_file chrom_file missing_str))
          else check_sizes two_bit_file chrom_file twobit_seq_to_size chroms_sizes
                 (set_order intersection))"

subsection \<open>\<^verbatim>\<open>check_isoforms_file\<close>\<close>

definition missing_transcripts_msg :: "nat \<Rightarrow> string \<Rightarrow> string" where
  "missing_transcripts_msg n extra_t_list =
     ''Error! There are '' @ str_nat n @ '' transcripts in the bed ''
       @ ''file absent in the isoforms file! ''
       @ ''There are the transcripts (first 100):'' @ [CHR 0x0A] @ extra_t_list"

text \<open>The loop \<^verbatim>\<open>for trans in t_in_both\<close>, which writes one line for each
  transcript (the loop variable \<^verbatim>\<open>trans\<close> is \<open>transcript\<close> here).\<close>

fun write_isoforms ::
  "(string, string) fmap \<Rightarrow> string \<Rightarrow> string list \<Rightarrow> filesystem
     \<Rightarrow> (error + unit) \<times> filesystem"
where
  "write_isoforms isoform_to_gene isoforms_file [] fs = (Inr (), fs)"
| "write_isoforms isoform_to_gene isoforms_file (transcript # rest) fs =
     (case fmlookup isoform_to_gene transcript of
        None \<Rightarrow> (Inl (KeyError transcript), fs)
      | Some gene \<Rightarrow>
          write_isoforms isoform_to_gene isoforms_file rest
            (file_write fs isoforms_file (gene @ [CHR 0x09] @ transcript @ [CHR 0x0A])))"

text \<open>\<open>isoforms_data\<close> is the outcome of \<^verbatim>\<open>read_isoforms_file(isoforms_arg)\<close>,
  the parser imported from \<^verbatim>\<open>modules.common\<close>: a triple whose second component is
  the map from a transcript to its gene and whose third component is the list of the
  fields of the header row, or the exception raised. \<open>isoforms_arg\<close> is \<open>None\<close> or a
  path; Python's \<^verbatim>\<open>not isoforms_arg\<close> holds for \<^verbatim>\<open>None\<close> and for the empty string.\<close>

definition check_isoforms_file ::
  "(string fset \<Rightarrow> string list)
     \<Rightarrow> error + ('g \<times> (string, string) fmap \<times> string list)
     \<Rightarrow> filesystem \<Rightarrow> string option \<Rightarrow> string fset \<Rightarrow> string
     \<Rightarrow> (error + string option) \<times> filesystem"
where
  "check_isoforms_file set_order isoforms_data fs isoforms_arg t_in_bed temp_wd =
     (case isoforms_arg of
        None \<Rightarrow> (Inr None, fs)
      | Some isoforms_path \<Rightarrow>
          if isoforms_path = [] then (Inr None, fs)
          else
            (case isoforms_data of
               Inl e \<Rightarrow> (Inl e, fs)
             | Inr (_, isoform_to_gene, header) \<Rightarrow>
                 if length header < 1 then (Inl IndexError, fs)
                 else
                   let header_maybe_gene = header ! 0 in
                   if length header < 2 then (Inl IndexError, fs)
                   else
                     let header_maybe_trans = header ! 1;
                         isoforms_file = os_path_join temp_wd ''isoforms.tsv'';
                         t_in_i = fmdom isoform_to_gene;
                         u_in_b = t_in_bed |-| t_in_i
                     in
                     if fcard u_in_b \<noteq> 0
                     then
                       let extra_t_list = join_str [CHR 0x0A] (take 100 (set_order u_in_b))
                       in (Inl (ValueError
                                 (missing_transcripts_msg (fcard u_in_b) extra_t_list)), fs)
                     else
                       let t_in_both = t_in_bed |\<inter>| t_in_i;
                           skip_header = (header_maybe_trans |\<in>| t_in_bed)
                       in
                       (case open_write fs isoforms_file of
                          Inl e \<Rightarrow> (Inl e, fs)
                        | Inr fs1 \<Rightarrow>
                            let fs2 = (if \<not> skip_header
                                       then file_write fs1 isoforms_file
                                              (header_maybe_gene @ [CHR 0x09]
                                                 @ header_maybe_trans @ [CHR 0x0A])
                                       else fs1)
                            in
                            (case write_isoforms isoform_to_gene isoforms_file
                                    (set_order t_in_both) fs2 of
                               (Inl e, fs3) \<Rightarrow> (Inl e, fs3)
                             | (Inr _, fs3) \<Rightarrow> (Inr (Some isoforms_file), fs3)))))"

subsection \<open>Auxiliary notions for the statements\<close>

text \<open>A line passes the checks of the loop of \<^verbatim>\<open>check_and_write_u12_file\<close>: it has
  three fields and, when its transcript is in \<open>t_in_bed\<close>, a numeric second field and
  a third field in \<open>U12_AD_FIELD\<close>.\<close>

definition u12_line_passes :: "string fset \<Rightarrow> string \<Rightarrow> bool" where
  "u12_line_passes t_in_bed line =
     (length (u12_fields line) = 3 \<and>
      (u12_fields line ! 0 |\<in>| t_in_bed \<longrightarrow>
         isnumeric (u12_fields line ! 1) \<and> u12_fields line ! 2 \<in> U12_AD_FIELD))"

text \<open>The shape of the lines that reading a text yields: none is empty, a newline
  occurs only as the last character of a line, and every line but the last ends with
  one.\<close>

fun wf_lines :: "string list \<Rightarrow> bool" where
  "wf_lines [] = True"
| "wf_lines [l] = (l \<noteq> [] \<and> CHR 0x0A \<notin> set (butlast l))"
| "wf_lines (l # l' # ls) =
     (l \<noteq> [] \<and> CHR 0x0A \<notin> set (butlast l) \<and> last l = CHR 0x0A \<and> wf_lines (l' # ls))"

section \<open>Properties\<close>

subsection \<open>Iteration orders\<close>

lemma set_order_ok_set: "set_order_ok set_order \<Longrightarrow> set (set_order s) = fset s"
proof -
  assume "set_order_ok set_order"
  then have "fset_of_list (set_order s) = s" by (simp add: set_order_ok_def)
  then have "fset (fset_of_list (set_order s)) = fset s" by simp
  then show ?thesis by (simp add: fset_of_list.rep_eq)
qed

lemma set_order_ok_distinct: "set_order_ok set_order \<Longrightarrow> distinct (set_order s)"
  by (simp add: set_order_ok_def)

lemma set_order_ok_length: "set_order_ok set_order \<Longrightarrow> length (set_order s) = fcard s"
  using distinct_card [of "set_order s"]
  by (simp add: set_order_ok_set set_order_ok_distinct fcard.rep_eq)

lemma fcard_pos_iff: "0 < fcard s \<longleftrightarrow> s \<noteq> {||}"
  by (cases "s = {||}") (auto simp: fcard_0_eq)

lemma set_order_ok_sorted: "set_order_ok sorted_list_of_fset"
proof -
  have "distinct (sorted_list_of_fset s)" for s :: "string fset"
    by (simp add: sorted_list_of_fset.rep_eq)
  then show ?thesis by (simp add: set_order_ok_def)
qed

lemma str_nat_1: "str_nat 1 = ''1''"
  by (simp add: str_nat.simps digit_char_def)

subsection \<open>The loop over the lines of the U12 file\<close>

lemma u12_read_lines_passes:
  "\<forall>l \<in> set f. u12_line_passes T l \<Longrightarrow>
   u12_read_lines p T num f filt
     = Inr (filt @ filter (\<lambda>l. u12_fields l ! 0 |\<in>| T) f)"
  by (induction f arbitrary: num filt)
     (simp_all add: u12_line_passes_def U12_FILE_COLS_def Let_def)

lemma u12_read_lines_Inr:
  "u12_read_lines p T num f filt = Inr r \<Longrightarrow>
   (\<forall>l \<in> set f. u12_line_passes T l) \<and> r = filt @ filter (\<lambda>l. u12_fields l ! 0 |\<in>| T) f"
proof (induction f arbitrary: num filt)
  case Nil
  then show ?case by simp
next
  case (Cons line f)
  from Cons.prems have len: "length (u12_fields line) = 3"
    by (simp add: U12_FILE_COLS_def Let_def split: if_splits)
  show ?case
  proof (cases "u12_fields line ! 0 |\<in>| T")
    case False
    with Cons.prems len have "u12_read_lines p T (num + 1) f filt = Inr r"
      by (simp add: U12_FILE_COLS_def Let_def)
    from Cons.IH [OF this] show ?thesis
      using False len by (simp add: u12_line_passes_def)
  next
    case True
    with Cons.prems len have ok: "isnumeric (u12_fields line ! 1)"
        "u12_fields line ! 2 \<in> U12_AD_FIELD"
      by (simp_all add: U12_FILE_COLS_def Let_def split: if_splits)
    with Cons.prems len True
    have "u12_read_lines p T (num + 1) f (filt @ [line]) = Inr r"
      by (simp add: U12_FILE_COLS_def Let_def)
    from Cons.IH [OF this] show ?thesis
      using True len ok by (simp add: u12_line_passes_def)
  qed
qed




lemma wf_lines_Cons_term:
  "l \<noteq> [] \<Longrightarrow> CHR 0x0A \<notin> set (butlast l) \<Longrightarrow> last l = CHR 0x0A \<Longrightarrow> wf_lines ls
   \<Longrightarrow> wf_lines (l # ls)"
  by (cases ls) simp_all

lemma wf_lines_tl: "wf_lines (l # ls) \<Longrightarrow> wf_lines ls"
  by (cases ls) simp_all

lemma wf_lines_hd: "wf_lines (l # ls) \<Longrightarrow> l \<noteq> [] \<and> CHR 0x0A \<notin> set (butlast l)"
  by (cases ls) simp_all

lemma wf_lines_file_lines: "wf_lines (file_lines s)"
proof (induction s)
  case Nil
  then show ?case by simp
next
  case (Cons c cs)
  show ?case
  proof (cases "c = CHR 0x0A")
    case True
    then show ?thesis using Cons by (simp add: wf_lines_Cons_term)
  next
    case False
    show ?thesis
    proof (cases "file_lines cs")
      case Nil
      then show ?thesis using False by simp
    next
      case (Cons l ls)
      with Cons.IH have "wf_lines (l # ls)" by simp
      then show ?thesis using False Cons by (cases ls) auto
    qed
  qed
qed

lemma wf_lines_filter: "wf_lines ls \<Longrightarrow> wf_lines (filter P ls)"
proof (induction ls rule: wf_lines.induct)
  case 1
  then show ?case by simp
next
  case (2 l)
  then show ?case by simp
next
  case (3 l l' ls)
  then show ?case by (auto intro: wf_lines_Cons_term)
qed

lemma file_lines_terminated:
  "l \<noteq> [] \<Longrightarrow> CHR 0x0A \<notin> set (butlast l) \<Longrightarrow> last l = CHR 0x0A
   \<Longrightarrow> file_lines (l @ s) = l # file_lines s"
proof (induction l)
  case Nil
  then show ?case by simp
next
  case (Cons c l)
  then show ?case by (cases "l = []") auto
qed

lemma file_lines_single:
  "l \<noteq> [] \<Longrightarrow> CHR 0x0A \<notin> set (butlast l) \<Longrightarrow> file_lines l = [l]"
proof (induction l)
  case Nil
  then show ?case by simp
next
  case (Cons c l)
  then show ?case by (cases "l = []") auto
qed

lemma file_lines_concat: "wf_lines ls \<Longrightarrow> file_lines (concat ls) = ls"
proof (induction ls rule: wf_lines.induct)
  case 1
  then show ?case by simp
next
  case (2 l)
  then show ?case by (simp add: file_lines_single)
next
  case (3 l l' ls)
  then show ?case by (simp add: file_lines_terminated)
qed

lemma concat_file_lines: "concat (file_lines s) = s"
proof (induction s)
  case Nil
  then show ?case by simp
next
  case (Cons c cs)
  then show ?case by (cases "file_lines cs") (auto split: list.splits)
qed

lemma universal_newlines_no_CR: "CHR 0x0D \<notin> set (universal_newlines s)"
  by (induction s rule: universal_newlines.induct) auto

lemma universal_newlines_id: "CHR 0x0D \<notin> set s \<Longrightarrow> universal_newlines s = s"
  by (induction s rule: universal_newlines.induct) auto

lemma wf_lines_read_lines: "wf_lines (read_lines s)"
  unfolding read_lines_def by (rule wf_lines_file_lines)

lemma read_lines_no_CR: "l \<in> set (read_lines s) \<Longrightarrow> CHR 0x0D \<notin> set l"
proof -
  assume "l \<in> set (read_lines s)"
  then have "set l \<subseteq> set (concat (file_lines (universal_newlines s)))"
    by (auto simp: read_lines_def)
  then show ?thesis
    using universal_newlines_no_CR [of s] by (auto simp: concat_file_lines)
qed

lemma read_lines_concat:
  assumes "wf_lines ls" and "\<forall>l \<in> set ls. CHR 0x0D \<notin> set l"
  shows "read_lines (concat ls) = ls"
proof -
  from assms(2) have "CHR 0x0D \<notin> set (concat ls)" by auto
  then have "universal_newlines (concat ls) = concat ls"
    by (rule universal_newlines_id)
  with assms(1) show ?thesis
    by (simp add: read_lines_def file_lines_concat)
qed

subsection \<open>The loops of the 2bit and the isoforms checkers\<close>

lemma check_sizes_result:
  assumes "\<forall>c \<in> set xs. c |\<in>| fmdom t2s \<and> c |\<in>| fmdom cs"
  shows "(if \<exists>c \<in> set xs. \<exists>n m. fmlookup cs c = Some (Some n) \<and> fmlookup t2s c = Some m \<and> n \<noteq> m
          then \<exists>msg. check_sizes tb cf t2s cs xs = Inl (ValueError msg)
          else check_sizes tb cf t2s cs xs = Inr ())"
  using assms
proof (induction xs)
  case Nil
  then show ?case by simp
next
  case (Cons c xs)
  from Cons.prems obtain m where m: "fmlookup t2s c = Some m"
    by (auto simp: fmdom.rep_eq dom_def fmlookup_dom_iff)
  from Cons.prems obtain v where v: "fmlookup cs c = Some v"
    by (auto simp: fmlookup_dom_iff)
  from Cons.prems have IH: "(if \<exists>c \<in> set xs. \<exists>n m. fmlookup cs c = Some (Some n) \<and> fmlookup t2s c = Some m \<and> n \<noteq> m
          then \<exists>msg. check_sizes tb cf t2s cs xs = Inl (ValueError msg)
          else check_sizes tb cf t2s cs xs = Inr ())"
    using Cons.IH by simp
  show ?case
  proof (cases v)
    case None
    with m v IH show ?thesis by (auto split: if_splits)
  next
    case (Some n)
    with m v IH show ?thesis by (auto split: if_splits)
  qed
qed

subsection \<open>Opening and writing the output files\<close>

lemma open_write_ok:
  "can_open_write fs path \<Longrightarrow> open_write fs path = Inr (fs\<lparr>files := (files fs)(path \<mapsto> [])\<rparr>)"
  by (simp add: can_open_write_def open_write_def)

lemma open_write_fails:
  "\<not> can_open_write fs path \<Longrightarrow> \<exists>e. open_write fs path = Inl e"
  by (auto simp: can_open_write_def open_write_def)

lemma open_write_Inr:
  "open_write fs path = Inr fs1 \<Longrightarrow>
   can_open_write fs path \<and> fs1 = fs\<lparr>files := (files fs)(path \<mapsto> [])\<rparr>"
  by (auto simp: can_open_write_def open_write_def split: if_splits)

lemma file_write_after:
  "files fs path = Some written \<Longrightarrow>
   file_write fs path text = fs\<lparr>files := (files fs)(path \<mapsto> written @ text)\<rparr>"
  by (simp add: file_write_def)

lemma write_isoforms_ok:
  assumes "\<forall>t \<in> set ts. t |\<in>| fmdom m" and "files fs p = Some written"
  shows "write_isoforms m p ts fs
         = (Inr (),
            fs\<lparr>files := (files fs)(p \<mapsto> written
                 @ concat (map (\<lambda>t. the (fmlookup m t) @ [CHR 0x09] @ t @ [CHR 0x0A]) ts))\<rparr>)"
  using assms
proof (induction ts arbitrary: fs written)
  case Nil
  then show ?case by (simp add: map_upd_triv)
next
  case (Cons t ts)
  from Cons.prems(1) obtain gene where gene: "fmlookup m t = Some gene"
    by (auto simp: fmlookup_dom_iff)
  let ?w = "written @ gene @ [CHR 0x09] @ t @ [CHR 0x0A]"
  let ?fs = "fs\<lparr>files := (files fs)(p \<mapsto> ?w)\<rparr>"
  have fw: "file_write fs p (gene @ [CHR 0x09] @ t @ [CHR 0x0A]) = ?fs"
    using Cons.prems(2) by (rule file_write_after)
  have w: "files ?fs p = Some ?w"
    by simp
  from Cons.prems(1) have rest: "\<forall>t \<in> set ts. t |\<in>| fmdom m" by simp
  have upd: "?fs\<lparr>files := (files ?fs)(p \<mapsto> x)\<rparr> = fs\<lparr>files := (files fs)(p \<mapsto> x)\<rparr>" for x
    by simp
  from Cons.IH [of ?fs ?w, OF rest w]
  have step: "write_isoforms m p ts ?fs
              = (Inr (),
                 fs\<lparr>files := (files fs)(p \<mapsto> ?w
                      @ concat (map (\<lambda>t. the (fmlookup m t) @ [CHR 0x09] @ t @ [CHR 0x0A]) ts))\<rparr>)"
    unfolding upd .
  have "write_isoforms m p (t # ts) fs = write_isoforms m p ts ?fs"
    using gene fw by simp
  with step show ?case
    using gene by (auto simp: fun_upd_def)
qed

lemma write_isoforms_restrict:
  assumes "\<forall>t \<in> set ts. t |\<in>| A"
  shows "write_isoforms (fmrestrict_fset A m) p ts fs = write_isoforms m p ts fs"
  using assms by (induction ts arbitrary: fs) (simp_all split: option.splits)

lemma isoforms_complete_run:
  assumes arg: "isoforms_path \<noteq> []"
    and hd: "2 \<le> length header"
    and complete: "t_in_bed |-| fmdom isoform_to_gene = {||}"
  shows "check_isoforms_file set_order (Inr (genes, isoform_to_gene, header)) fs
           (Some isoforms_path) t_in_bed temp_wd
         = (case open_write fs (os_path_join temp_wd ''isoforms.tsv'') of
              Inl e \<Rightarrow> (Inl e, fs)
            | Inr fs1 \<Rightarrow>
                (case write_isoforms isoform_to_gene (os_path_join temp_wd ''isoforms.tsv'')
                        (set_order (t_in_bed |\<inter>| fmdom isoform_to_gene))
                        (if header ! 1 |\<in>| t_in_bed then fs1
                         else file_write fs1 (os_path_join temp_wd ''isoforms.tsv'')
                                (header ! 0 @ [CHR 0x09] @ header ! 1 @ [CHR 0x0A])) of
                   (Inl e, fs3) \<Rightarrow> (Inl e, fs3)
                 | (Inr u, fs3) \<Rightarrow>
                     (Inr (Some (os_path_join temp_wd ''isoforms.tsv'')), fs3)))"
proof -
  from complete have card: "fcard (t_in_bed |-| fmdom isoform_to_gene) = 0"
    by (simp only: fcard_fempty)
  from hd have ne: "header \<noteq> []" by auto
  show ?thesis
    unfolding check_isoforms_file_def
    using arg hd ne card by (simp add: Let_def split: sum.splits)
qed

lemma isoforms_success:
  assumes ok: "set_order_ok set_order"
    and arg: "isoforms_path \<noteq> []"
    and hd: "2 \<le> length header"
    and complete: "t_in_bed |-| fmdom isoform_to_gene = {||}"
    and dir: "can_open_write fs (os_path_join temp_wd ''isoforms.tsv'')"
  shows "check_isoforms_file set_order (Inr (genes, isoform_to_gene, header)) fs
           (Some isoforms_path) t_in_bed temp_wd
         = (Inr (Some (os_path_join temp_wd ''isoforms.tsv'')),
            fs\<lparr>files := (files fs)(os_path_join temp_wd ''isoforms.tsv'' \<mapsto>
                 (if header ! 1 |\<in>| t_in_bed then []
                  else header ! 0 @ [CHR 0x09] @ header ! 1 @ [CHR 0x0A])
                 @ concat (map (\<lambda>t. the (fmlookup isoform_to_gene t)
                                      @ [CHR 0x09] @ t @ [CHR 0x0A])
                             (set_order (t_in_bed |\<inter>| fmdom isoform_to_gene))))\<rparr>)"
proof -
  let ?out = "os_path_join temp_wd ''isoforms.tsv''"
  let ?ts = "set_order (t_in_bed |\<inter>| fmdom isoform_to_gene)"
  let ?body = "concat (map (\<lambda>t. the (fmlookup isoform_to_gene t)
                                      @ [CHR 0x09] @ t @ [CHR 0x0A]) ?ts)"
  let ?fs1 = "fs\<lparr>files := (files fs)(?out \<mapsto> [])\<rparr>"
  have in_dom: "\<forall>t \<in> set ?ts. t |\<in>| fmdom isoform_to_gene"
    using set_order_ok_set [OF ok, of "t_in_bed |\<inter>| fmdom isoform_to_gene"] by simp
  have ow: "open_write fs ?out = Inr ?fs1"
    using dir by (rule open_write_ok)
  note run = isoforms_complete_run [OF arg hd complete, of set_order genes fs temp_wd]
  show ?thesis
  proof (cases "header ! 1 |\<in>| t_in_bed")
    case True
    have w: "files ?fs1 ?out = Some []" by simp
    have loop: "write_isoforms isoform_to_gene ?out ?ts ?fs1
                = (Inr (), fs\<lparr>files := (files fs)(?out \<mapsto> [] @ ?body)\<rparr>)"
      using write_isoforms_ok [of ?ts isoform_to_gene ?fs1 ?out "[]", OF in_dom w]
      by simp
    show ?thesis
      unfolding run ow using True loop by simp
  next
    case False
    let ?hdr = "header ! 0 @ [CHR 0x09] @ header ! 1 @ [CHR 0x0A]"
    let ?fs2 = "fs\<lparr>files := (files fs)(?out \<mapsto> ?hdr)\<rparr>"
    have fw: "file_write ?fs1 ?out ?hdr = ?fs2"
      by (simp add: file_write_def)
    have w: "files ?fs2 ?out = Some ?hdr" by simp
    have loop: "write_isoforms isoform_to_gene ?out ?ts ?fs2
                = (Inr (), fs\<lparr>files := (files fs)(?out \<mapsto> ?hdr @ ?body)\<rparr>)"
      using write_isoforms_ok [of ?ts isoform_to_gene ?fs2 ?out ?hdr, OF in_dom w]
      by simp
    show ?thesis
      unfolding run ow using False loop fw by simp
  qed
qed

lemma isoforms_cannot_write:
  assumes arg: "isoforms_path \<noteq> []"
    and hd: "2 \<le> length header"
    and complete: "t_in_bed |-| fmdom isoform_to_gene = {||}"
    and dir: "\<not> can_open_write fs (os_path_join temp_wd ''isoforms.tsv'')"
  shows "check_isoforms_file set_order (Inr (genes, isoform_to_gene, header)) fs
           (Some isoforms_path) t_in_bed temp_wd
         = (Inl (if os_path_join temp_wd ''isoforms.tsv'' \<in> dirs fs
                 then IsADirectoryError (os_path_join temp_wd ''isoforms.tsv'')
                 else FileNotFoundError (os_path_join temp_wd ''isoforms.tsv'')), fs)"
  unfolding isoforms_complete_run [OF arg hd complete]
  using dir by (auto simp: can_open_write_def open_write_def)

lemma isoforms_incomplete:
  assumes arg: "isoforms_path \<noteq> []"
    and hd: "2 \<le> length header"
    and missing: "t_in_bed |-| fmdom isoform_to_gene \<noteq> {||}"
  shows "check_isoforms_file set_order (Inr (genes, isoform_to_gene, header)) fs
           (Some isoforms_path) t_in_bed temp_wd
         = (Inl (ValueError
                  (missing_transcripts_msg (fcard (t_in_bed |-| fmdom isoform_to_gene))
                     (join_str [CHR 0x0A]
                        (take 100 (set_order (t_in_bed |-| fmdom isoform_to_gene)))))),
            fs)"
proof -
  from missing have "fcard (t_in_bed |-| fmdom isoform_to_gene) \<noteq> 0"
    by (simp only: fcard_0_eq not_False_eq_True)
  moreover from hd have "header \<noteq> []" by auto
  ultimately show ?thesis
    unfolding check_isoforms_file_def
    using arg hd by (simp add: Let_def)
qed

lemma sample_bounded:
  assumes "set_order_ok set_order"
  shows "length (take 100 (set_order s)) = min 100 (fcard s)
       \<and> distinct (take 100 (set_order s))
       \<and> set (take 100 (set_order s)) \<subseteq> fset s"
proof -
  have "set (take 100 (set_order s)) \<subseteq> set (set_order s)"
    by (rule set_take_subset)
  then show ?thesis
    using assms
    by (simp add: set_order_ok_length set_order_ok_distinct set_order_ok_set min.commute)
qed

lemma u12_run:
  assumes "files fs u12_path = Some content"
  shows "check_and_write_u12_file fs (Some u12_path) t_in_bed temp_wd
         = (case u12_read_lines u12_path t_in_bed 1 (read_lines content) [] of
              Inl e \<Rightarrow> (Inl e, fs)
            | Inr filt_lines \<Rightarrow>
                if filt_lines = [] then (Inl (ValueError (u12_empty_msg u12_path)), fs)
                else
                  (case open_write fs (os_path_join temp_wd ''u12_data.txt'') of
                     Inl e \<Rightarrow> (Inl e, fs)
                   | Inr fs1 \<Rightarrow>
                       (Inr (Some (os_path_join temp_wd ''u12_data.txt'')),
                        file_write fs1 (os_path_join temp_wd ''u12_data.txt'')
                          (concat filt_lines))))"
  using assms
  by (simp add: check_and_write_u12_file_def open_read_def Let_def split: sum.splits)

lemma open_write_then_write:
  assumes "can_open_write fs path"
  shows "(case open_write fs path of
            Inl e \<Rightarrow> (Inl e, fs)
          | Inr fs1 \<Rightarrow> (Inr (Some path), file_write fs1 path text))
         = (Inr (Some path) :: error + string option,
            fs\<lparr>files := (files fs)(path \<mapsto> text)\<rparr>)"
  using assms by (simp add: open_write_ok file_write_def)

subsection \<open>The sequence-length consistency checker\<close>

text \<open>
  Claim C1. When the 2bit file is readable, \<^verbatim>\<open>check_2bit_file_completeness\<close> raises
  (a \<^verbatim>\<open>ValueError\<close>) if and only if some chromosome of the size map is absent from
  the sequences of the 2bit file, or some chromosome has a known length in the size map
  that differs from its length in the 2bit file; a chromosome whose length is unknown
  (\<open>None\<close>) is not compared but must still exist. Otherwise the call returns nothing.
  This holds for every order in which the sets are iterated.
\<close>

theorem check_2bit_raises_iff:
  assumes "set_order_ok set_order"
  shows "((\<exists>msg. check_2bit_file_completeness set_order (Inr twobit_seq_to_size)
                   two_bit_file chroms_sizes chrom_file = Inl (ValueError msg))
          \<longleftrightarrow> (\<exists>chrom. chrom |\<in>| fmdom chroms_sizes \<and> chrom |\<notin>| fmdom twobit_seq_to_size)
            \<or> (\<exists>chrom n m. fmlookup chroms_sizes chrom = Some (Some n)
                           \<and> fmlookup twobit_seq_to_size chrom = Some m \<and> n \<noteq> m))
       \<and> (check_2bit_file_completeness set_order (Inr twobit_seq_to_size)
             two_bit_file chroms_sizes chrom_file = Inr ()
          \<longleftrightarrow> \<not> ((\<exists>chrom. chrom |\<in>| fmdom chroms_sizes \<and> chrom |\<notin>| fmdom twobit_seq_to_size)
                 \<or> (\<exists>chrom n m. fmlookup chroms_sizes chrom = Some (Some n)
                           \<and> fmlookup twobit_seq_to_size chrom = Some m \<and> n \<noteq> m)))"
proof (cases "fmdom chroms_sizes |-| fmdom twobit_seq_to_size = {||}")
  case False
  then have missing: "\<exists>chrom. chrom |\<in>| fmdom chroms_sizes \<and> chrom |\<notin>| fmdom twobit_seq_to_size"
    by auto
  from False have "fcard (fmdom chroms_sizes |-| fmdom twobit_seq_to_size) > 0"
    by (simp only: fcard_pos_iff not_False_eq_True)
  then have "\<exists>msg. check_2bit_file_completeness set_order (Inr twobit_seq_to_size)
                   two_bit_file chroms_sizes chrom_file = Inl (ValueError msg)"
    by (simp add: check_2bit_file_completeness_def Let_def)
  with missing show ?thesis by auto
next
  case True
  then have sub: "\<not> (\<exists>chrom. chrom |\<in>| fmdom chroms_sizes \<and> chrom |\<notin>| fmdom twobit_seq_to_size)"
    by auto
  let ?xs = "set_order (fmdom twobit_seq_to_size |\<inter>| fmdom chroms_sizes)"
  from True
  have run: "check_2bit_file_completeness set_order (Inr twobit_seq_to_size)
               two_bit_file chroms_sizes chrom_file
             = check_sizes two_bit_file chrom_file twobit_seq_to_size chroms_sizes ?xs"
    by (simp add: check_2bit_file_completeness_def Let_def fcard_pos_iff)
  have elems: "set ?xs = fset (fmdom twobit_seq_to_size |\<inter>| fmdom chroms_sizes)"
    using assms by (rule set_order_ok_set)
  then have both: "\<forall>c \<in> set ?xs. c |\<in>| fmdom twobit_seq_to_size \<and> c |\<in>| fmdom chroms_sizes"
    by auto
  have mism: "(\<exists>c \<in> set ?xs. \<exists>n m. fmlookup chroms_sizes c = Some (Some n)
                  \<and> fmlookup twobit_seq_to_size c = Some m \<and> n \<noteq> m)
              \<longleftrightarrow> (\<exists>chrom n m. fmlookup chroms_sizes chrom = Some (Some n)
                           \<and> fmlookup twobit_seq_to_size chrom = Some m \<and> n \<noteq> m)"
  proof
    assume "\<exists>c \<in> set ?xs. \<exists>n m. fmlookup chroms_sizes c = Some (Some n)
                  \<and> fmlookup twobit_seq_to_size c = Some m \<and> n \<noteq> m"
    then show "\<exists>chrom n m. fmlookup chroms_sizes chrom = Some (Some n)
                           \<and> fmlookup twobit_seq_to_size chrom = Some m \<and> n \<noteq> m"
      by blast
  next
    assume "\<exists>chrom n m. fmlookup chroms_sizes chrom = Some (Some n)
                           \<and> fmlookup twobit_seq_to_size chrom = Some m \<and> n \<noteq> m"
    then obtain chrom n m where f: "fmlookup chroms_sizes chrom = Some (Some n)"
        "fmlookup twobit_seq_to_size chrom = Some m" "n \<noteq> m"
      by blast
    then have "chrom |\<in>| fmdom chroms_sizes" "chrom |\<in>| fmdom twobit_seq_to_size"
      by (auto intro: fmdomI)
    then have "chrom \<in> set ?xs"
      unfolding elems by simp
    with f show "\<exists>c \<in> set ?xs. \<exists>n m. fmlookup chroms_sizes c = Some (Some n)
                  \<and> fmlookup twobit_seq_to_size c = Some m \<and> n \<noteq> m"
      by blast
  qed
  from check_sizes_result [OF both, of two_bit_file chrom_file] show ?thesis
    unfolding run mism using sub by (auto split: if_splits)
qed

theorem check_2bit_raises_iff_witness:
  "(\<exists>msg. check_2bit_file_completeness sorted_list_of_fset
            (Inr (fmap_of_list [(''chr1'', 1000), (''chr2'', 500)])) ''hg38.2bit''
            (fmap_of_list [(''chr1'', Some 1000), (''chrM'', None)]) ''genes.bed''
          = Inl (ValueError msg))
   \<and> (\<exists>msg. check_2bit_file_completeness sorted_list_of_fset
            (Inr (fmap_of_list [(''chr1'', 1000), (''chr2'', 500)])) ''hg38.2bit''
            (fmap_of_list [(''chr1'', Some 1000), (''chr2'', Some 501)]) ''hg38.chain''
          = Inl (ValueError msg))
   \<and> check_2bit_file_completeness sorted_list_of_fset
            (Inr (fmap_of_list [(''chr1'', 1000), (''chr2'', 500)])) ''hg38.2bit''
            (fmap_of_list [(''chr1'', Some 1000), (''chr2'', None)]) ''genes.bed''
          = Inr ()"
proof -
  have ok: "set_order_ok sorted_list_of_fset"
    by (rule set_order_ok_sorted)
  note inst = check_2bit_raises_iff
    [of sorted_list_of_fset "fmap_of_list [(''chr1'', 1000), (''chr2'', 500)]"
        "''hg38.2bit''", OF ok]
  have a: "\<exists>chrom. chrom |\<in>| fmdom (fmap_of_list [(''chr1'', Some (1000::int)), (''chrM'', None)])
                 \<and> chrom |\<notin>| fmdom (fmap_of_list [(''chr1'', 1000::int), (''chr2'', 500)])"
    by (rule exI [of _ "''chrM''"]) simp
  have b: "\<exists>chrom n m. fmlookup (fmap_of_list [(''chr1'', Some (1000::int)), (''chr2'', Some 501)]) chrom = Some (Some n)
                 \<and> fmlookup (fmap_of_list [(''chr1'', 1000::int), (''chr2'', 500)]) chrom = Some m \<and> n \<noteq> m"
    by (rule exI [of _ "''chr2''"]) (simp add: fmlookup_of_list)
  have c: "\<not> ((\<exists>chrom. chrom |\<in>| fmdom (fmap_of_list [(''chr1'', Some (1000::int)), (''chr2'', None)])
                 \<and> chrom |\<notin>| fmdom (fmap_of_list [(''chr1'', 1000::int), (''chr2'', 500)]))
            \<or> (\<exists>chrom n m. fmlookup (fmap_of_list [(''chr1'', Some (1000::int)), (''chr2'', None)]) chrom = Some (Some n)
                 \<and> fmlookup (fmap_of_list [(''chr1'', 1000::int), (''chr2'', 500)]) chrom = Some m \<and> n \<noteq> m))"
    by (auto simp: fmlookup_of_list split: if_splits)
  from a b c inst [of "fmap_of_list [(''chr1'', Some 1000), (''chrM'', None)]" "''genes.bed''"]
       inst [of "fmap_of_list [(''chr1'', Some 1000), (''chr2'', Some 501)]" "''hg38.chain''"]
       inst [of "fmap_of_list [(''chr1'', Some 1000), (''chr2'', None)]" "''genes.bed''"]
  show ?thesis by blast
qed

subsection \<open>The isoforms validator and filter\<close>

text \<open>
  Claim C3. For an isoforms file that is given and parsed, with a header row of two
  fields: if some transcript of the transcript identifier set is not a key of the parsed
  map, \<^verbatim>\<open>check_isoforms_file\<close> raises the \<^verbatim>\<open>ValueError\<close> whose message gives the
  number of the missing transcripts and lists at most 100 of them, and writes nothing;
  if none is missing and the output file can be opened for writing, the call succeeds;
  and the entries of the map for transcripts outside the set change nothing: the result,
  output file included, is the one for the map restricted to the set.
\<close>

theorem isoforms_missing_transcripts:
  assumes "set_order_ok set_order"
    and "isoforms_path \<noteq> []"
    and "2 \<le> length header"
  shows "(t_in_bed |-| fmdom isoform_to_gene \<noteq> {||} \<longrightarrow>
            check_isoforms_file set_order (Inr (genes, isoform_to_gene, header)) fs
              (Some isoforms_path) t_in_bed temp_wd
            = (Inl (ValueError
                     (''Error! There are ''
                      @ str_nat (fcard (t_in_bed |-| fmdom isoform_to_gene))
                      @ '' transcripts in the bed file absent in the isoforms file! ''
                      @ ''There are the transcripts (first 100):'' @ [CHR 0x0A]
                      @ join_str [CHR 0x0A]
                          (take 100 (set_order (t_in_bed |-| fmdom isoform_to_gene))))),
               fs)
            \<and> length (take 100 (set_order (t_in_bed |-| fmdom isoform_to_gene))) \<le> 100
            \<and> set (take 100 (set_order (t_in_bed |-| fmdom isoform_to_gene)))
                \<subseteq> fset (t_in_bed |-| fmdom isoform_to_gene))
       \<and> (t_in_bed |-| fmdom isoform_to_gene = {||}
            \<and> can_open_write fs (os_path_join temp_wd ''isoforms.tsv'') \<longrightarrow>
            fst (check_isoforms_file set_order (Inr (genes, isoform_to_gene, header)) fs
                   (Some isoforms_path) t_in_bed temp_wd)
            = Inr (Some (os_path_join temp_wd ''isoforms.tsv'')))
       \<and> check_isoforms_file set_order
            (Inr (genes, fmrestrict_fset t_in_bed isoform_to_gene, header)) fs
            (Some isoforms_path) t_in_bed temp_wd
         = check_isoforms_file set_order (Inr (genes, isoform_to_gene, header)) fs
             (Some isoforms_path) t_in_bed temp_wd"
proof (intro conjI impI)
  assume missing: "t_in_bed |-| fmdom isoform_to_gene \<noteq> {||}"
  from isoforms_incomplete [OF assms(2,3) missing, of set_order genes fs temp_wd]
  show "check_isoforms_file set_order (Inr (genes, isoform_to_gene, header)) fs
              (Some isoforms_path) t_in_bed temp_wd
            = (Inl (ValueError
                     (''Error! There are ''
                      @ str_nat (fcard (t_in_bed |-| fmdom isoform_to_gene))
                      @ '' transcripts in the bed file absent in the isoforms file! ''
                      @ ''There are the transcripts (first 100):'' @ [CHR 0x0A]
                      @ join_str [CHR 0x0A]
                          (take 100 (set_order (t_in_bed |-| fmdom isoform_to_gene))))),
               fs)"
    by (simp add: missing_transcripts_msg_def)
next
  show "length (take 100 (set_order (t_in_bed |-| fmdom isoform_to_gene))) \<le> 100"
    by simp
next
  show "set (take 100 (set_order (t_in_bed |-| fmdom isoform_to_gene)))
          \<subseteq> fset (t_in_bed |-| fmdom isoform_to_gene)"
    using sample_bounded [OF assms(1)] by blast
next
  assume "t_in_bed |-| fmdom isoform_to_gene = {||}
            \<and> can_open_write fs (os_path_join temp_wd ''isoforms.tsv'')"
  then have c: "t_in_bed |-| fmdom isoform_to_gene = {||}"
    and d: "can_open_write fs (os_path_join temp_wd ''isoforms.tsv'')"
    by simp_all
  from isoforms_success [OF assms c d, of genes]
  show "fst (check_isoforms_file set_order (Inr (genes, isoform_to_gene, header)) fs
                   (Some isoforms_path) t_in_bed temp_wd)
            = Inr (Some (os_path_join temp_wd ''isoforms.tsv''))"
    by simp
next
  let ?r = "fmrestrict_fset t_in_bed isoform_to_gene"
  have dom: "fmdom ?r = fmdom isoform_to_gene |\<inter>| t_in_bed"
    by (rule fmdom'_restrict_fset_precise)
  have diff: "t_in_bed |-| fmdom ?r = t_in_bed |-| fmdom isoform_to_gene"
    unfolding dom by auto
  have inter: "t_in_bed |\<inter>| fmdom ?r = t_in_bed |\<inter>| fmdom isoform_to_gene"
    unfolding dom by auto
  show "check_isoforms_file set_order (Inr (genes, ?r, header)) fs
            (Some isoforms_path) t_in_bed temp_wd
         = check_isoforms_file set_order (Inr (genes, isoform_to_gene, header)) fs
             (Some isoforms_path) t_in_bed temp_wd"
  proof (cases "t_in_bed |-| fmdom isoform_to_gene = {||}")
    case False
    with diff have "t_in_bed |-| fmdom ?r \<noteq> {||}" by simp
    from isoforms_incomplete [OF assms(2,3) this, of set_order genes fs temp_wd]
         isoforms_incomplete [OF assms(2,3) False, of set_order genes fs temp_wd]
    show ?thesis by (simp only: diff)
  next
    case True
    with diff have r: "t_in_bed |-| fmdom ?r = {||}" by simp
    show ?thesis
    proof (cases "can_open_write fs (os_path_join temp_wd ''isoforms.tsv'')")
      case False
      from isoforms_cannot_write [OF assms(2,3) r False, of set_order genes]
           isoforms_cannot_write [OF assms(2,3) True False, of set_order genes]
      show ?thesis by simp
    next
      case dir: True
      note a = isoforms_success [OF assms r dir, of genes]
      note b = isoforms_success [OF assms True dir, of genes]
      have "set (set_order (t_in_bed |\<inter>| fmdom isoform_to_gene))
            = fset (t_in_bed |\<inter>| fmdom isoform_to_gene)"
        using assms(1) by (rule set_order_ok_set)
      then have "map (\<lambda>t. the (fmlookup ?r t) @ [CHR 0x09] @ t @ [CHR 0x0A])
                   (set_order (t_in_bed |\<inter>| fmdom isoform_to_gene))
               = map (\<lambda>t. the (fmlookup isoform_to_gene t) @ [CHR 0x09] @ t @ [CHR 0x0A])
                   (set_order (t_in_bed |\<inter>| fmdom isoform_to_gene))"
        by (intro map_cong) auto
      with a b show ?thesis by (simp only: inter)
    qed
  qed
qed

theorem isoforms_missing_transcripts_witness:
  "check_isoforms_file sorted_list_of_fset
     (Inr ((), fmap_of_list [(''t1'', ''g1''), (''t2'', ''g2'')], [''gene'', ''transcript'']))
     \<lparr>files = Map.empty, dirs = {''wd''}\<rparr> (Some ''isoforms.txt'')
     {|''t1'', ''t2'', ''t3''|} ''wd''
   = (Inl (ValueError
            (''Error! There are 1 transcripts in the bed file absent in the isoforms file! ''
             @ ''There are the transcripts (first 100):'' @ [CHR 0x0A] @ ''t3'')),
      \<lparr>files = Map.empty, dirs = {''wd''}\<rparr>)
   \<and> fst (check_isoforms_file sorted_list_of_fset
           (Inr ((), fmap_of_list [(''t1'', ''g1''), (''t2'', ''g2''), (''t3'', ''g3''),
                                   (''t4'', ''g4'')], [''gene'', ''transcript'']))
           \<lparr>files = Map.empty, dirs = {''wd''}\<rparr> (Some ''isoforms.txt'')
           {|''t1'', ''t2'', ''t3''|} ''wd'')
     = Inr (Some ''wd/isoforms.tsv'')"
proof -
  have ok: "set_order_ok sorted_list_of_fset"
    by (rule set_order_ok_sorted)
  have arg: "''isoforms.txt'' \<noteq> []" by simp
  have hd: "2 \<le> length [''gene'', ''transcript'']" by simp
  have d: "{|''t1'', ''t2'', ''t3''|} |-| fmdom (fmap_of_list [(''t1'', ''g1''), (''t2'', ''g2'')])
           = {|''t3''|}"
    by simp
  have c: "fcard {|''t3''|} = 1"
    by (simp add: fcard_finsert_if)
  have l: "sorted_list_of_fset {|''t3''|} = [''t3'']"
    by code_simp
  have d': "{|''t1'', ''t2'', ''t3''|}
              |-| fmdom (fmap_of_list [(''t1'', ''g1''), (''t2'', ''g2''), (''t3'', ''g3''),
                                       (''t4'', ''g4'')]) = {||}"
    by simp
  have w: "can_open_write \<lparr>files = Map.empty, dirs = {''wd''}\<rparr>
             (os_path_join ''wd'' ''isoforms.tsv'')"
    by (simp add: can_open_write_def os_path_join_def os_path_dirname_def)
  from isoforms_missing_transcripts
         [OF ok arg hd,
          where t_in_bed = "{|''t1'', ''t2'', ''t3''|}"
            and isoform_to_gene = "fmap_of_list [(''t1'', ''g1''), (''t2'', ''g2'')]"
            and genes = "()"
            and fs = "\<lparr>files = Map.empty, dirs = {''wd''}\<rparr>" and temp_wd = "''wd''"]
       isoforms_missing_transcripts
         [OF ok arg hd,
          where t_in_bed = "{|''t1'', ''t2'', ''t3''|}"
            and isoform_to_gene = "fmap_of_list [(''t1'', ''g1''), (''t2'', ''g2''),
                                     (''t3'', ''g3''), (''t4'', ''g4'')]"
            and genes = "()"
            and fs = "\<lparr>files = Map.empty, dirs = {''wd''}\<rparr>" and temp_wd = "''wd''"]
       w
  show ?thesis
    unfolding d d' c l str_nat_1 by (simp add: os_path_join_def)
qed

text \<open>
  Claim C4. \<^verbatim>\<open>check_isoforms_file\<close> succeeds exactly when the path is given, the
  header row has two fields, no transcript of the set is missing from the map and the
  output file can be opened for writing. The file it then writes is \<^verbatim>\<open>isoforms.tsv\<close>
  in the working directory; it starts with the line made of the two header fields
  exactly when the second header field is not in the transcript identifier set (no
  header line is written when it is), and the rest is one line, gene then transcript,
  for each transcript that is both in the set and a key of the map, each once, in the
  order of the iteration over that set.
\<close>

theorem isoforms_output:
  assumes "set_order_ok set_order"
  shows "(check_isoforms_file set_order (Inr (genes, isoform_to_gene, header)) fs
            (Some isoforms_path) t_in_bed temp_wd = (Inr (Some out), fs')
          \<longleftrightarrow>
            isoforms_path \<noteq> [] \<and> 2 \<le> length header
            \<and> t_in_bed |-| fmdom isoform_to_gene = {||}
            \<and> can_open_write fs (os_path_join temp_wd ''isoforms.tsv'')
            \<and> out = os_path_join temp_wd ''isoforms.tsv''
            \<and> fs' = fs\<lparr>files := (files fs)(out \<mapsto>
                 (if header ! 1 |\<in>| t_in_bed then []
                  else header ! 0 @ [CHR 0x09] @ header ! 1 @ [CHR 0x0A])
                 @ concat (map (\<lambda>transcript. the (fmlookup isoform_to_gene transcript)
                                      @ [CHR 0x09] @ transcript @ [CHR 0x0A])
                             (set_order (t_in_bed |\<inter>| fmdom isoform_to_gene))))\<rparr>)
       \<and> distinct (set_order (t_in_bed |\<inter>| fmdom isoform_to_gene))
       \<and> fset_of_list (set_order (t_in_bed |\<inter>| fmdom isoform_to_gene))
           = t_in_bed |\<inter>| fmdom isoform_to_gene"
proof (intro conjI)
  show "check_isoforms_file set_order (Inr (genes, isoform_to_gene, header)) fs
            (Some isoforms_path) t_in_bed temp_wd = (Inr (Some out), fs')
          \<longleftrightarrow>
            isoforms_path \<noteq> [] \<and> 2 \<le> length header
            \<and> t_in_bed |-| fmdom isoform_to_gene = {||}
            \<and> can_open_write fs (os_path_join temp_wd ''isoforms.tsv'')
            \<and> out = os_path_join temp_wd ''isoforms.tsv''
            \<and> fs' = fs\<lparr>files := (files fs)(out \<mapsto>
                 (if header ! 1 |\<in>| t_in_bed then []
                  else header ! 0 @ [CHR 0x09] @ header ! 1 @ [CHR 0x0A])
                 @ concat (map (\<lambda>transcript. the (fmlookup isoform_to_gene transcript)
                                      @ [CHR 0x09] @ transcript @ [CHR 0x0A])
                             (set_order (t_in_bed |\<inter>| fmdom isoform_to_gene))))\<rparr>"
  proof
    assume run: "check_isoforms_file set_order (Inr (genes, isoform_to_gene, header)) fs
            (Some isoforms_path) t_in_bed temp_wd = (Inr (Some out), fs')"
  then have arg: "isoforms_path \<noteq> []"
    by (auto simp: check_isoforms_file_def split: if_splits)
  from run arg have hd: "2 \<le> length header"
    by (auto simp: check_isoforms_file_def Let_def split: if_splits)
  have complete: "t_in_bed |-| fmdom isoform_to_gene = {||}"
  proof (rule ccontr)
    assume "t_in_bed |-| fmdom isoform_to_gene \<noteq> {||}"
    from isoforms_incomplete [OF arg hd this, of set_order genes fs temp_wd] run
    show False by simp
  qed
  have dir: "can_open_write fs (os_path_join temp_wd ''isoforms.tsv'')"
  proof (rule ccontr)
    assume "\<not> can_open_write fs (os_path_join temp_wd ''isoforms.tsv'')"
    from isoforms_cannot_write [OF arg hd complete this, of set_order genes] run
    show False by simp
  qed
  from isoforms_success [OF assms arg hd complete dir, of genes] run
  have "out = os_path_join temp_wd ''isoforms.tsv''"
    and "fs' = fs\<lparr>files := (files fs)(os_path_join temp_wd ''isoforms.tsv'' \<mapsto>
                 (if header ! 1 |\<in>| t_in_bed then []
                  else header ! 0 @ [CHR 0x09] @ header ! 1 @ [CHR 0x0A])
                 @ concat (map (\<lambda>transcript. the (fmlookup isoform_to_gene transcript)
                                      @ [CHR 0x09] @ transcript @ [CHR 0x0A])
                             (set_order (t_in_bed |\<inter>| fmdom isoform_to_gene))))\<rparr>"
    by simp_all
  with arg hd complete dir
  show "isoforms_path \<noteq> [] \<and> 2 \<le> length header
            \<and> t_in_bed |-| fmdom isoform_to_gene = {||}
            \<and> can_open_write fs (os_path_join temp_wd ''isoforms.tsv'')
            \<and> out = os_path_join temp_wd ''isoforms.tsv''
            \<and> fs' = fs\<lparr>files := (files fs)(out \<mapsto>
                 (if header ! 1 |\<in>| t_in_bed then []
                  else header ! 0 @ [CHR 0x09] @ header ! 1 @ [CHR 0x0A])
                 @ concat (map (\<lambda>transcript. the (fmlookup isoform_to_gene transcript)
                                      @ [CHR 0x09] @ transcript @ [CHR 0x0A])
                             (set_order (t_in_bed |\<inter>| fmdom isoform_to_gene))))\<rparr>"
    by simp
next
  assume a: "isoforms_path \<noteq> [] \<and> 2 \<le> length header
            \<and> t_in_bed |-| fmdom isoform_to_gene = {||}
            \<and> can_open_write fs (os_path_join temp_wd ''isoforms.tsv'')
            \<and> out = os_path_join temp_wd ''isoforms.tsv''
            \<and> fs' = fs\<lparr>files := (files fs)(out \<mapsto>
                 (if header ! 1 |\<in>| t_in_bed then []
                  else header ! 0 @ [CHR 0x09] @ header ! 1 @ [CHR 0x0A])
                 @ concat (map (\<lambda>transcript. the (fmlookup isoform_to_gene transcript)
                                      @ [CHR 0x09] @ transcript @ [CHR 0x0A])
                             (set_order (t_in_bed |\<inter>| fmdom isoform_to_gene))))\<rparr>"
  then have arg: "isoforms_path \<noteq> []" and hd: "2 \<le> length header"
    and complete: "t_in_bed |-| fmdom isoform_to_gene = {||}"
    and dir: "can_open_write fs (os_path_join temp_wd ''isoforms.tsv'')"
    by simp_all
  from isoforms_success [OF assms arg hd complete dir, of genes] a
  show "check_isoforms_file set_order (Inr (genes, isoform_to_gene, header)) fs
            (Some isoforms_path) t_in_bed temp_wd = (Inr (Some out), fs')"
    by simp
  qed
next
  show "distinct (set_order (t_in_bed |\<inter>| fmdom isoform_to_gene))"
    using assms by (rule set_order_ok_distinct)
next
  show "fset_of_list (set_order (t_in_bed |\<inter>| fmdom isoform_to_gene))
           = t_in_bed |\<inter>| fmdom isoform_to_gene"
    using assms by (simp add: set_order_ok_def)
qed

theorem isoforms_output_witness:
  "check_isoforms_file sorted_list_of_fset
     (Inr ((), fmap_of_list [(''t1'', ''g1''), (''t2'', ''g2''), (''t3'', ''g3''),
                             (''t4'', ''g4'')], [''gene'', ''transcript'']))
     \<lparr>files = Map.empty, dirs = {''wd''}\<rparr> (Some ''isoforms.txt'')
     {|''t1'', ''t2'', ''t3''|} ''wd''
   = (Inr (Some ''wd/isoforms.tsv''),
      \<lparr>files = [''wd/isoforms.tsv'' \<mapsto>
                 ''gene'' @ [CHR 0x09] @ ''transcript'' @ [CHR 0x0A]
                 @ ''g1'' @ [CHR 0x09] @ ''t1'' @ [CHR 0x0A]
                 @ ''g2'' @ [CHR 0x09] @ ''t2'' @ [CHR 0x0A]
                 @ ''g3'' @ [CHR 0x09] @ ''t3'' @ [CHR 0x0A]],
       dirs = {''wd''}\<rparr>)
   \<and> check_isoforms_file sorted_list_of_fset
       (Inr ((), fmap_of_list [(''t1'', ''g1''), (''t2'', ''g2'')], [''g1'', ''t1'']))
       \<lparr>files = Map.empty, dirs = {''wd''}\<rparr> (Some ''isoforms.txt'')
       {|''t1'', ''t2''|} ''wd''
     = (Inr (Some ''wd/isoforms.tsv''),
        \<lparr>files = [''wd/isoforms.tsv'' \<mapsto>
                   ''g1'' @ [CHR 0x09] @ ''t1'' @ [CHR 0x0A]
                   @ ''g2'' @ [CHR 0x09] @ ''t2'' @ [CHR 0x0A]],
         dirs = {''wd''}\<rparr>)"
proof -
  have ok: "set_order_ok sorted_list_of_fset"
    by (rule set_order_ok_sorted)
  have w: "can_open_write \<lparr>files = Map.empty, dirs = {''wd''}\<rparr>
             (os_path_join ''wd'' ''isoforms.tsv'')"
    by (simp add: can_open_write_def os_path_join_def os_path_dirname_def)
  have d: "{|''t1'', ''t2'', ''t3''|}
              |-| fmdom (fmap_of_list [(''t1'', ''g1''), (''t2'', ''g2''), (''t3'', ''g3''),
                                       (''t4'', ''g4'')]) = {||}"
    by simp
  have i: "{|''t1'', ''t2'', ''t3''|}
              |\<inter>| fmdom (fmap_of_list [(''t1'', ''g1''), (''t2'', ''g2''), (''t3'', ''g3''),
                                       (''t4'', ''g4'')]) = {|''t1'', ''t2'', ''t3''|}"
    by auto
  have l: "sorted_list_of_fset {|''t1'', ''t2'', ''t3''|} = [''t1'', ''t2'', ''t3'']"
    by code_simp
  have d2: "{|''t1'', ''t2''|} |-| fmdom (fmap_of_list [(''t1'', ''g1''), (''t2'', ''g2'')])
            = {||}"
    by simp
  have i2: "{|''t1'', ''t2''|} |\<inter>| fmdom (fmap_of_list [(''t1'', ''g1''), (''t2'', ''g2'')])
            = {|''t1'', ''t2''|}"
    by auto
  have l2: "sorted_list_of_fset {|''t1'', ''t2''|} = [''t1'', ''t2'']"
    by code_simp
  note first = isoforms_output
    [OF ok,
     where genes = "()"
       and isoform_to_gene = "fmap_of_list [(''t1'', ''g1''), (''t2'', ''g2''), (''t3'', ''g3''),
                                            (''t4'', ''g4'')]"
       and header = "[''gene'', ''transcript'']"
       and fs = "\<lparr>files = Map.empty, dirs = {''wd''}\<rparr>"
       and isoforms_path = "''isoforms.txt''"
       and t_in_bed = "{|''t1'', ''t2'', ''t3''|}" and temp_wd = "''wd''"
       and out = "''wd/isoforms.tsv''"
       and fs' = "\<lparr>files = [''wd/isoforms.tsv'' \<mapsto>
                 ''gene'' @ [CHR 0x09] @ ''transcript'' @ [CHR 0x0A]
                 @ ''g1'' @ [CHR 0x09] @ ''t1'' @ [CHR 0x0A]
                 @ ''g2'' @ [CHR 0x09] @ ''t2'' @ [CHR 0x0A]
                 @ ''g3'' @ [CHR 0x09] @ ''t3'' @ [CHR 0x0A]],
         dirs = {''wd''}\<rparr>"]
  note second = isoforms_output
    [OF ok,
     where genes = "()"
       and isoform_to_gene = "fmap_of_list [(''t1'', ''g1''), (''t2'', ''g2'')]"
       and header = "[''g1'', ''t1'']"
       and fs = "\<lparr>files = Map.empty, dirs = {''wd''}\<rparr>"
       and isoforms_path = "''isoforms.txt''"
       and t_in_bed = "{|''t1'', ''t2''|}" and temp_wd = "''wd''"
       and out = "''wd/isoforms.tsv''"
       and fs' = "\<lparr>files = [''wd/isoforms.tsv'' \<mapsto>
                   ''g1'' @ [CHR 0x09] @ ''t1'' @ [CHR 0x0A]
                   @ ''g2'' @ [CHR 0x09] @ ''t2'' @ [CHR 0x0A]],
         dirs = {''wd''}\<rparr>"]
  have a: "check_isoforms_file sorted_list_of_fset
     (Inr ((), fmap_of_list [(''t1'', ''g1''), (''t2'', ''g2''), (''t3'', ''g3''),
                             (''t4'', ''g4'')], [''gene'', ''transcript'']))
     \<lparr>files = Map.empty, dirs = {''wd''}\<rparr> (Some ''isoforms.txt'')
     {|''t1'', ''t2'', ''t3''|} ''wd''
   = (Inr (Some ''wd/isoforms.tsv''),
      \<lparr>files = [''wd/isoforms.tsv'' \<mapsto>
                 ''gene'' @ [CHR 0x09] @ ''transcript'' @ [CHR 0x0A]
                 @ ''g1'' @ [CHR 0x09] @ ''t1'' @ [CHR 0x0A]
                 @ ''g2'' @ [CHR 0x09] @ ''t2'' @ [CHR 0x0A]
                 @ ''g3'' @ [CHR 0x09] @ ''t3'' @ [CHR 0x0A]],
       dirs = {''wd''}\<rparr>)"
    using first w unfolding d i l by (simp add: os_path_join_def fmlookup_of_list)
  have b: "check_isoforms_file sorted_list_of_fset
       (Inr ((), fmap_of_list [(''t1'', ''g1''), (''t2'', ''g2'')], [''g1'', ''t1'']))
       \<lparr>files = Map.empty, dirs = {''wd''}\<rparr> (Some ''isoforms.txt'')
       {|''t1'', ''t2''|} ''wd''
     = (Inr (Some ''wd/isoforms.tsv''),
        \<lparr>files = [''wd/isoforms.tsv'' \<mapsto>
                   ''g1'' @ [CHR 0x09] @ ''t1'' @ [CHR 0x0A]
                   @ ''g2'' @ [CHR 0x09] @ ''t2'' @ [CHR 0x0A]],
         dirs = {''wd''}\<rparr>)"
    using second w unfolding d2 i2 l2 by (simp add: os_path_join_def fmlookup_of_list)
  from a b show ?thesis by (rule conjI)
qed

subsection \<open>The messages of the completeness errors\<close>

text \<open>
  Claim C7 (amended). The message for missing transcripts of \<^verbatim>\<open>check_isoforms_file\<close>
  holds the number of the missing transcripts and a sample of them, at most 100; the
  message for missing chromosomes of \<^verbatim>\<open>check_2bit_file_completeness\<close> holds the two
  file names and a sample of the missing chromosomes, at most 100, and nothing else. In
  both the sample has \<open>min 100 n\<close> names when \<open>n\<close> are missing.
\<close>

theorem completeness_messages:
  assumes "set_order_ok set_order"
  shows "(fmdom chroms_sizes |-| fmdom twobit_seq_to_size \<noteq> {||} \<longrightarrow>
            check_2bit_file_completeness set_order (Inr twobit_seq_to_size) two_bit_file
              chroms_sizes chrom_file
            = Inl (ValueError
                    (''Error! 2bit file: '' @ two_bit_file @ ''; chain/bed file: ''
                     @ chrom_file @ ''; ''
                     @ ''Some chromosomes present in the chain/bed file are not found in the ''
                     @ ''Two bit file. First <=100: ''
                     @ join_str [CHR 0x0A]
                         (take 100 (set_order
                            (fmdom chroms_sizes |-| fmdom twobit_seq_to_size)))))
            \<and> length (take 100 (set_order (fmdom chroms_sizes |-| fmdom twobit_seq_to_size)))
                = min 100 (fcard (fmdom chroms_sizes |-| fmdom twobit_seq_to_size))
            \<and> set (take 100 (set_order (fmdom chroms_sizes |-| fmdom twobit_seq_to_size)))
                \<subseteq> fset (fmdom chroms_sizes |-| fmdom twobit_seq_to_size))
       \<and> (isoforms_path \<noteq> [] \<and> 2 \<le> length header
            \<and> t_in_bed |-| fmdom isoform_to_gene \<noteq> {||} \<longrightarrow>
            check_isoforms_file set_order (Inr (genes, isoform_to_gene, header)) fs
              (Some isoforms_path) t_in_bed temp_wd
            = (Inl (ValueError
                     (''Error! There are ''
                      @ str_nat (fcard (t_in_bed |-| fmdom isoform_to_gene))
                      @ '' transcripts in the bed file absent in the isoforms file! ''
                      @ ''There are the transcripts (first 100):'' @ [CHR 0x0A]
                      @ join_str [CHR 0x0A]
                          (take 100 (set_order (t_in_bed |-| fmdom isoform_to_gene))))),
               fs)
            \<and> length (take 100 (set_order (t_in_bed |-| fmdom isoform_to_gene)))
                = min 100 (fcard (t_in_bed |-| fmdom isoform_to_gene))
            \<and> set (take 100 (set_order (t_in_bed |-| fmdom isoform_to_gene)))
                \<subseteq> fset (t_in_bed |-| fmdom isoform_to_gene))"
proof (intro conjI impI)
  assume "fmdom chroms_sizes |-| fmdom twobit_seq_to_size \<noteq> {||}"
  then show "check_2bit_file_completeness set_order (Inr twobit_seq_to_size) two_bit_file
              chroms_sizes chrom_file
            = Inl (ValueError
                    (''Error! 2bit file: '' @ two_bit_file @ ''; chain/bed file: ''
                     @ chrom_file @ ''; ''
                     @ ''Some chromosomes present in the chain/bed file are not found in the ''
                     @ ''Two bit file. First <=100: ''
                     @ join_str [CHR 0x0A]
                         (take 100 (set_order
                            (fmdom chroms_sizes |-| fmdom twobit_seq_to_size)))))"
    by (simp add: check_2bit_file_completeness_def Let_def fcard_pos_iff missing_chroms_msg_def)
next
  show "length (take 100 (set_order (fmdom chroms_sizes |-| fmdom twobit_seq_to_size)))
                = min 100 (fcard (fmdom chroms_sizes |-| fmdom twobit_seq_to_size))"
    using sample_bounded [OF assms] by blast
next
  show "set (take 100 (set_order (fmdom chroms_sizes |-| fmdom twobit_seq_to_size)))
                \<subseteq> fset (fmdom chroms_sizes |-| fmdom twobit_seq_to_size)"
    using sample_bounded [OF assms] by blast
next
  assume a: "isoforms_path \<noteq> [] \<and> 2 \<le> length header
            \<and> t_in_bed |-| fmdom isoform_to_gene \<noteq> {||}"
  then have "isoforms_path \<noteq> []" "2 \<le> length header"
      "t_in_bed |-| fmdom isoform_to_gene \<noteq> {||}"
    by simp_all
  from isoforms_incomplete [OF this, of set_order genes fs temp_wd]
  show "check_isoforms_file set_order (Inr (genes, isoform_to_gene, header)) fs
              (Some isoforms_path) t_in_bed temp_wd
            = (Inl (ValueError
                     (''Error! There are ''
                      @ str_nat (fcard (t_in_bed |-| fmdom isoform_to_gene))
                      @ '' transcripts in the bed file absent in the isoforms file! ''
                      @ ''There are the transcripts (first 100):'' @ [CHR 0x0A]
                      @ join_str [CHR 0x0A]
                          (take 100 (set_order (t_in_bed |-| fmdom isoform_to_gene))))),
               fs)"
    by (simp add: missing_transcripts_msg_def)
next
  show "length (take 100 (set_order (t_in_bed |-| fmdom isoform_to_gene)))
                = min 100 (fcard (t_in_bed |-| fmdom isoform_to_gene))"
    using sample_bounded [OF assms] by blast
next
  show "set (take 100 (set_order (t_in_bed |-| fmdom isoform_to_gene)))
                \<subseteq> fset (t_in_bed |-| fmdom isoform_to_gene)"
    using sample_bounded [OF assms] by blast
qed

theorem completeness_messages_witness:
  "check_2bit_file_completeness sorted_list_of_fset
     (Inr (fmap_of_list [(''chr1'', 1000)])) ''hg38.2bit''
     (fmap_of_list [(''chr1'', Some 1000), (''chrM'', None)]) ''genes.bed''
   = Inl (ValueError
           (''Error! 2bit file: hg38.2bit; chain/bed file: genes.bed; ''
            @ ''Some chromosomes present in the chain/bed file are not found in the ''
            @ ''Two bit file. First <=100: chrM''))
   \<and> check_isoforms_file sorted_list_of_fset
       (Inr ((), fmap_of_list [(''t1'', ''g1'')], [''gene'', ''transcript'']))
       \<lparr>files = Map.empty, dirs = {''wd''}\<rparr> (Some ''isoforms.txt'') {|''t1'', ''t7''|} ''wd''
     = (Inl (ValueError
            (''Error! There are 1 transcripts in the bed file absent in the isoforms file! ''
             @ ''There are the transcripts (first 100):'' @ [CHR 0x0A] @ ''t7'')),
        \<lparr>files = Map.empty, dirs = {''wd''}\<rparr>)"
proof -
  have ok: "set_order_ok sorted_list_of_fset"
    by (rule set_order_ok_sorted)
  have d1: "fmdom (fmap_of_list [(''chr1'', Some (1000 :: int)), (''chrM'', None)])
              |-| fmdom (fmap_of_list [(''chr1'', 1000 :: int)]) = {|''chrM''|}"
    by simp
  have l1: "sorted_list_of_fset {|''chrM''|} = [''chrM'']"
    by code_simp
  have d2: "{|''t1'', ''t7''|} |-| fmdom (fmap_of_list [(''t1'', ''g1'')]) = {|''t7''|}"
    by simp
  have l2: "sorted_list_of_fset {|''t7''|} = [''t7'']"
    by code_simp
  have c2: "fcard {|''t7''|} = 1"
    by (simp add: fcard_finsert_if)
  from completeness_messages
         [OF ok, of "fmap_of_list [(''chr1'', Some 1000), (''chrM'', None)]"
            "fmap_of_list [(''chr1'', 1000)]" "''hg38.2bit''" "''genes.bed''"
            "''isoforms.txt''" "[''gene'', ''transcript'']" "{|''t1'', ''t7''|}"
            "fmap_of_list [(''t1'', ''g1'')]" "()" "\<lparr>files = Map.empty, dirs = {''wd''}\<rparr>" "''wd''"]
  show ?thesis
    unfolding d1 l1 d2 l2 c2 str_nat_1 by simp
qed

text \<open>
  The claim as first stated asks for the number of the missing identifiers in both
  messages. The message for missing chromosomes does not hold it: with the three
  chromosomes \<open>chrA\<close>, \<open>chrB\<close> and \<open>chrC\<close> missing, the digit \<open>3\<close> occurs nowhere
  in the message.
\<close>

theorem missing_chroms_msg_no_count_counterexample:
  "check_2bit_file_completeness sorted_list_of_fset
     (Inr (fmap_of_list [(''chr1'', 1000)])) ''genome.2bit''
     (fmap_of_list [(''chrA'', None), (''chrB'', None), (''chrC'', None)]) ''genes.bed''
   = Inl (ValueError
           (''Error! 2bit file: genome.2bit; chain/bed file: genes.bed; ''
            @ ''Some chromosomes present in the chain/bed file are not found in the ''
            @ ''Two bit file. First <=100: chrA'' @ [CHR 0x0A] @ ''chrB'' @ [CHR 0x0A]
            @ ''chrC''))
   \<and> fcard (fmdom (fmap_of_list [(''chrA'', None :: int option), (''chrB'', None),
                                  (''chrC'', None)])
            |-| fmdom (fmap_of_list [(''chr1'', 1000 :: int)])) = 3
   \<and> str_nat 3 = ''3''
   \<and> CHR ''3'' \<notin> set (''Error! 2bit file: genome.2bit; chain/bed file: genes.bed; ''
            @ ''Some chromosomes present in the chain/bed file are not found in the ''
            @ ''Two bit file. First <=100: chrA'' @ [CHR 0x0A] @ ''chrB'' @ [CHR 0x0A]
            @ ''chrC'')"
proof (intro conjI)
  show "check_2bit_file_completeness sorted_list_of_fset
     (Inr (fmap_of_list [(''chr1'', 1000)])) ''genome.2bit''
     (fmap_of_list [(''chrA'', None), (''chrB'', None), (''chrC'', None)]) ''genes.bed''
   = Inl (ValueError
           (''Error! 2bit file: genome.2bit; chain/bed file: genes.bed; ''
            @ ''Some chromosomes present in the chain/bed file are not found in the ''
            @ ''Two bit file. First <=100: chrA'' @ [CHR 0x0A] @ ''chrB'' @ [CHR 0x0A]
            @ ''chrC''))"
    by code_simp
next
  show "fcard (fmdom (fmap_of_list [(''chrA'', None :: int option), (''chrB'', None),
                                  (''chrC'', None)])
            |-| fmdom (fmap_of_list [(''chr1'', 1000 :: int)])) = 3"
    by code_simp
next
  show "str_nat 3 = ''3''"
    by (simp add: str_nat.simps digit_char_def)
next
  show "CHR ''3'' \<notin> set (''Error! 2bit file: genome.2bit; chain/bed file: genes.bed; ''
            @ ''Some chromosomes present in the chain/bed file are not found in the ''
            @ ''Two bit file. First <=100: chrA'' @ [CHR 0x0A] @ ''chrB'' @ [CHR 0x0A]
            @ ''chrC'')"
    by simp
qed

subsection \<open>The U12 validator and filter\<close>

text \<open>
  Claim C2 (amended). When the U12 file exists, every one of its lines, as text-mode
  reading yields them, splits into exactly three tab-separated fields with a numeric
  second field and a third field \<open>A\<close> or \<open>D\<close>, at least one line's transcript is in
  the transcript identifier set, and \<^verbatim>\<open>u12_data.txt\<close> can be opened for writing in the
  working directory (the directory exists and the path is not a directory), then
  \<^verbatim>\<open>check_and_write_u12_file\<close> succeeds, returns the path of \<^verbatim>\<open>u12_data.txt\<close> in
  the working directory, and that file holds exactly the lines whose transcript is in
  the set, in their order, as they were read: unchanged, terminators included, for a
  file without carriage returns, and otherwise with every terminator CR LF or CR
  replaced by LF.
\<close>

theorem u12_filter_success:
  assumes "files fs u12_path = Some content"
    and "\<forall>line \<in> set (read_lines content).
           length (u12_fields line) = 3
           \<and> isnumeric (u12_fields line ! 1)
           \<and> u12_fields line ! 2 \<in> {''A'', ''D''}"
    and "\<exists>line \<in> set (read_lines content). u12_fields line ! 0 |\<in>| t_in_bed"
    and "can_open_write fs (os_path_join temp_wd ''u12_data.txt'')"
  shows "check_and_write_u12_file fs (Some u12_path) t_in_bed temp_wd
         = (Inr (Some (os_path_join temp_wd ''u12_data.txt'')),
            fs\<lparr>files := (files fs)(os_path_join temp_wd ''u12_data.txt'' \<mapsto>
                 concat (filter (\<lambda>line. u12_fields line ! 0 |\<in>| t_in_bed)
                                (read_lines content)))\<rparr>)
       \<and> (CHR 0x0D \<notin> set content \<longrightarrow> read_lines content = file_lines content)"
proof -
  from assms(2) have "\<forall>l \<in> set (read_lines content). u12_line_passes t_in_bed l"
    by (simp add: u12_line_passes_def U12_AD_FIELD_def)
  then have loop: "u12_read_lines u12_path t_in_bed 1 (read_lines content) []
        = Inr (filter (\<lambda>line. u12_fields line ! 0 |\<in>| t_in_bed) (read_lines content))"
    using u12_read_lines_passes [of "read_lines content" t_in_bed u12_path 1 "[]"] by simp
  from assms(3)
  have ne: "filter (\<lambda>line. u12_fields line ! 0 |\<in>| t_in_bed) (read_lines content) \<noteq> []"
    by (simp add: filter_empty_conv)
  have "check_and_write_u12_file fs (Some u12_path) t_in_bed temp_wd
         = (Inr (Some (os_path_join temp_wd ''u12_data.txt'')),
            fs\<lparr>files := (files fs)(os_path_join temp_wd ''u12_data.txt'' \<mapsto>
                 concat (filter (\<lambda>line. u12_fields line ! 0 |\<in>| t_in_bed)
                                (read_lines content)))\<rparr>)"
    unfolding u12_run [OF assms(1)] loop
    using ne open_write_then_write [OF assms(4)] by simp
  then show ?thesis
    by (simp add: read_lines_def universal_newlines_id)
qed

theorem u12_filter_success_witness:
  "check_and_write_u12_file
     \<lparr>files = [''u12.tsv'' \<mapsto> ''t1'' @ [CHR 0x09] @ ''3'' @ [CHR 0x09] @ ''A'' @ [CHR 0x0A]
                    @ ''t9'' @ [CHR 0x09] @ ''12'' @ [CHR 0x09] @ ''D'' @ [CHR 0x0A]],
      dirs = {''wd''}\<rparr>
     (Some ''u12.tsv'') {|''t1''|} ''wd''
   = (Inr (Some ''wd/u12_data.txt''),
      \<lparr>files = [''u12.tsv'' \<mapsto> ''t1'' @ [CHR 0x09] @ ''3'' @ [CHR 0x09] @ ''A'' @ [CHR 0x0A]
                    @ ''t9'' @ [CHR 0x09] @ ''12'' @ [CHR 0x09] @ ''D'' @ [CHR 0x0A],
                ''wd/u12_data.txt'' \<mapsto>
                    ''t1'' @ [CHR 0x09] @ ''3'' @ [CHR 0x09] @ ''A'' @ [CHR 0x0A]],
       dirs = {''wd''}\<rparr>)"
  using u12_filter_success
    [where fs = "\<lparr>files = [''u12.tsv'' \<mapsto> ''t1'' @ [CHR 0x09] @ ''3'' @ [CHR 0x09] @ ''A'' @ [CHR 0x0A]
                    @ ''t9'' @ [CHR 0x09] @ ''12'' @ [CHR 0x09] @ ''D'' @ [CHR 0x0A]],
                  dirs = {''wd''}\<rparr>"
       and u12_path = "''u12.tsv''"
       and content = "''t1'' @ [CHR 0x09] @ ''3'' @ [CHR 0x09] @ ''A'' @ [CHR 0x0A]
                    @ ''t9'' @ [CHR 0x09] @ ''12'' @ [CHR 0x09] @ ''D'' @ [CHR 0x0A]"
       and t_in_bed = "{|''t1''|}" and temp_wd = "''wd''"]
  by (simp add: read_lines_def u12_fields_def rstrip_def isspace_char_def isnumeric_def
                isnumeric_char_def os_path_join_def os_path_dirname_def can_open_write_def)

text \<open>
  The claim as first stated has the retained lines written byte for byte, with their
  original terminators, for every working directory. The file is read in text mode: a
  line that ends with CR LF is read, and written, with LF alone. Here the only line of
  the first file has the three fields \<open>t1\<close>, \<open>3\<close> and \<open>A\<close> and ends with CR LF; the
  file written ends with LF. And when the working directory does not exist, opening the
  output file raises \<^verbatim>\<open>FileNotFoundError\<close>: the second run, on a file that ends with
  LF, fails and writes nothing.
\<close>

theorem u12_filter_success_counterexample:
  "u12_fields (''t1'' @ [CHR 0x09] @ ''3'' @ [CHR 0x09] @ ''A'' @ [CHR 0x0D, CHR 0x0A])
     = [''t1'', ''3'', ''A'']
   \<and> isnumeric ''3''
   \<and> check_and_write_u12_file
       \<lparr>files = [''u12.tsv'' \<mapsto> ''t1'' @ [CHR 0x09] @ ''3'' @ [CHR 0x09] @ ''A''
                                   @ [CHR 0x0D, CHR 0x0A]],
        dirs = {''wd''}\<rparr>
       (Some ''u12.tsv'') {|''t1''|} ''wd''
     = (Inr (Some ''wd/u12_data.txt''),
        \<lparr>files = [''u12.tsv'' \<mapsto> ''t1'' @ [CHR 0x09] @ ''3'' @ [CHR 0x09] @ ''A''
                                   @ [CHR 0x0D, CHR 0x0A],
                  ''wd/u12_data.txt'' \<mapsto> ''t1'' @ [CHR 0x09] @ ''3'' @ [CHR 0x09] @ ''A''
                                   @ [CHR 0x0A]],
         dirs = {''wd''}\<rparr>)
   \<and> ''t1'' @ [CHR 0x09] @ ''3'' @ [CHR 0x09] @ ''A'' @ [CHR 0x0A]
     \<noteq> ''t1'' @ [CHR 0x09] @ ''3'' @ [CHR 0x09] @ ''A'' @ [CHR 0x0D, CHR 0x0A]
   \<and> check_and_write_u12_file
       \<lparr>files = [''u12.tsv'' \<mapsto> ''t1'' @ [CHR 0x09] @ ''3'' @ [CHR 0x09] @ ''A''
                                   @ [CHR 0x0A]],
        dirs = {''''}\<rparr>
       (Some ''u12.tsv'') {|''t1''|} ''nodir''
     = (Inl (FileNotFoundError ''nodir/u12_data.txt''),
        \<lparr>files = [''u12.tsv'' \<mapsto> ''t1'' @ [CHR 0x09] @ ''3'' @ [CHR 0x09] @ ''A''
                                   @ [CHR 0x0A]],
         dirs = {''''}\<rparr>)"
  by (simp add: check_and_write_u12_file_def open_read_def open_write_def file_write_def
                read_lines_def u12_fields_def rstrip_def isspace_char_def isnumeric_def
                isnumeric_char_def os_path_join_def os_path_dirname_def
                U12_FILE_COLS_def U12_AD_FIELD_def Let_def)




text \<open>
  Claim C6. When the U12 file exists, every line splits into exactly three fields and
  no line's transcript is in the transcript identifier set (an empty file is one such
  file), \<^verbatim>\<open>check_and_write_u12_file\<close> raises the "No lines left" \<^verbatim>\<open>ValueError\<close>
  and writes nothing.
\<close>

theorem u12_all_filtered_raises:
  assumes "files fs u12_path = Some content"
    and "\<forall>line \<in> set (read_lines content).
           length (u12_fields line) = 3 \<and> u12_fields line ! 0 |\<notin>| t_in_bed"
  shows "check_and_write_u12_file fs (Some u12_path) t_in_bed temp_wd
         = (Inl (ValueError
                  (''Error! No lines left in the '' @ u12_path @ '' file after filter.''
                   @ ''Please check that transcript IDs in this file and input bed file are consistent'')),
            fs)"
proof -
  from assms(2) have "\<forall>l \<in> set (read_lines content). u12_line_passes t_in_bed l"
    by (simp add: u12_line_passes_def)
  then have "u12_read_lines u12_path t_in_bed 1 (read_lines content) []
        = Inr (filter (\<lambda>line. u12_fields line ! 0 |\<in>| t_in_bed) (read_lines content))"
    using u12_read_lines_passes [of "read_lines content" t_in_bed u12_path 1 "[]"] by simp
  moreover from assms(2)
  have "filter (\<lambda>line. u12_fields line ! 0 |\<in>| t_in_bed) (read_lines content) = []"
    by (simp add: filter_empty_conv)
  ultimately show ?thesis using assms(1)
    by (simp add: check_and_write_u12_file_def open_read_def open_write_def file_write_def Let_def u12_empty_msg_def)
qed

theorem u12_all_filtered_raises_witness:
  "check_and_write_u12_file
     \<lparr>files = [''u12.tsv'' \<mapsto> ''t9'' @ [CHR 0x09] @ ''12'' @ [CHR 0x09] @ ''D'' @ [CHR 0x0A]], dirs = {''wd''}\<rparr>
     (Some ''u12.tsv'') {|''t1''|} ''wd''
   = (Inl (ValueError
            (''Error! No lines left in the u12.tsv file after filter.''
             @ ''Please check that transcript IDs in this file and input bed file are consistent'')),
      \<lparr>files = [''u12.tsv'' \<mapsto> ''t9'' @ [CHR 0x09] @ ''12'' @ [CHR 0x09] @ ''D'' @ [CHR 0x0A]], dirs = {''wd''}\<rparr>)
   \<and> check_and_write_u12_file \<lparr>files = [''u12.tsv'' \<mapsto> ''''], dirs = {''wd''}\<rparr> (Some ''u12.tsv'') {|''t1''|} ''wd''
   = (Inl (ValueError
            (''Error! No lines left in the u12.tsv file after filter.''
             @ ''Please check that transcript IDs in this file and input bed file are consistent'')),
      \<lparr>files = [''u12.tsv'' \<mapsto> ''''], dirs = {''wd''}\<rparr>)"
  using u12_all_filtered_raises
    [of "\<lparr>files = [''u12.tsv'' \<mapsto> ''t9'' @ [CHR 0x09] @ ''12'' @ [CHR 0x09] @ ''D'' @ [CHR 0x0A]], dirs = {''wd''}\<rparr>"
        "''u12.tsv''" "''t9'' @ [CHR 0x09] @ ''12'' @ [CHR 0x09] @ ''D'' @ [CHR 0x0A]"
        "{|''t1''|}" "''wd''"]
    u12_all_filtered_raises
    [of "\<lparr>files = [''u12.tsv'' \<mapsto> ''''], dirs = {''wd''}\<rparr>" "''u12.tsv''" "''''" "{|''t1''|}" "''wd''"]
  by (simp add: read_lines_def u12_fields_def rstrip_def isspace_char_def)

text \<open>
  Claim C9. When \<^verbatim>\<open>check_and_write_u12_file\<close> succeeds, running it again on the file
  it wrote, with the same transcript identifier set and the same working directory,
  succeeds and leaves the file system as the first run left it: the output is the same
  text. Run into any other working directory where the output file can be opened for
  writing, it succeeds and writes that same text there.
\<close>

theorem u12_filter_idempotent:
  assumes "check_and_write_u12_file fs (Some u12_path) t_in_bed temp_wd
           = (Inr (Some out), fs')"
  shows "\<exists>filtered. files fs' out = Some filtered
           \<and> check_and_write_u12_file fs' (Some out) t_in_bed temp_wd
             = (Inr (Some out), fs')
           \<and> (\<forall>temp_wd'.
                 can_open_write fs' (os_path_join temp_wd' ''u12_data.txt'') \<longrightarrow>
                 check_and_write_u12_file fs' (Some out) t_in_bed temp_wd'
                 = (Inr (Some (os_path_join temp_wd' ''u12_data.txt'')),
                    fs'\<lparr>files := (files fs')(os_path_join temp_wd' ''u12_data.txt''
                                                  \<mapsto> filtered)\<rparr>))"
proof -
  from assms obtain content where content: "files fs u12_path = Some content"
    by (cases "files fs u12_path")
       (auto simp: check_and_write_u12_file_def open_read_def Let_def split: if_splits)
  note run = u12_run [OF content, of t_in_bed temp_wd]
  from assms run obtain filt where
    loop: "u12_read_lines u12_path t_in_bed 1 (read_lines content) [] = Inr filt"
    by (cases "u12_read_lines u12_path t_in_bed 1 (read_lines content) []") auto
  from assms run loop have ne: "filt \<noteq> []"
    by (auto split: if_splits)
  from assms run loop ne obtain fs1 where
    ow: "open_write fs (os_path_join temp_wd ''u12_data.txt'') = Inr fs1"
    by (cases "open_write fs (os_path_join temp_wd ''u12_data.txt'')") auto
  from open_write_Inr [OF ow]
  have dir: "can_open_write fs (os_path_join temp_wd ''u12_data.txt'')" ..
  have "check_and_write_u12_file fs (Some u12_path) t_in_bed temp_wd
        = (Inr (Some (os_path_join temp_wd ''u12_data.txt'')),
           fs\<lparr>files := (files fs)(os_path_join temp_wd ''u12_data.txt'' \<mapsto> concat filt)\<rparr>)"
    unfolding run loop using ne open_write_then_write [OF dir] by simp
  with assms have out: "out = os_path_join temp_wd ''u12_data.txt''"
    and fs'0: "fs' = fs\<lparr>files := (files fs)(os_path_join temp_wd ''u12_data.txt''
                                           \<mapsto> concat filt)\<rparr>"
    by auto
  from fs'0 have fs': "fs' = fs\<lparr>files := (files fs)(out \<mapsto> concat filt)\<rparr>"
    by (simp only: out)
  from u12_read_lines_Inr [OF loop]
  have pass: "\<forall>l \<in> set (read_lines content). u12_line_passes t_in_bed l"
    and filt: "filt = filter (\<lambda>l. u12_fields l ! 0 |\<in>| t_in_bed) (read_lines content)"
    by simp_all
  have "wf_lines filt"
    unfolding filt by (rule wf_lines_filter) (rule wf_lines_read_lines)
  moreover have "\<forall>l \<in> set filt. CHR 0x0D \<notin> set l"
    unfolding filt by (auto dest: read_lines_no_CR)
  ultimately have reread: "read_lines (concat filt) = filt"
    by (rule read_lines_concat)
  from pass filt have pass': "\<forall>l \<in> set filt. u12_line_passes t_in_bed l"
    by simp
  from filt have keep: "filter (\<lambda>l. u12_fields l ! 0 |\<in>| t_in_bed) filt = filt"
    by simp
  have loop': "u12_read_lines out t_in_bed 1 filt [] = Inr filt"
    using u12_read_lines_passes [OF pass', of out 1 "[]"] keep by simp
  have written: "files fs' out = Some (concat filt)"
    by (simp add: fs')
  have again: "check_and_write_u12_file fs' (Some out) t_in_bed wd
           = (Inr (Some (os_path_join wd ''u12_data.txt'')),
              fs'\<lparr>files := (files fs')(os_path_join wd ''u12_data.txt'' \<mapsto> concat filt)\<rparr>)"
    if "can_open_write fs' (os_path_join wd ''u12_data.txt'')" for wd
    unfolding u12_run [OF written] reread loop'
    using ne open_write_then_write [OF that] by simp
  have dir': "can_open_write fs' (os_path_join temp_wd ''u12_data.txt'')"
    using dir by (simp add: can_open_write_def fs')
  have same: "fs'\<lparr>files := (files fs')(out \<mapsto> concat filt)\<rparr> = fs'"
    by (simp add: fs')
  have "check_and_write_u12_file fs' (Some out) t_in_bed temp_wd = (Inr (Some out), fs')"
    using again [OF dir'] same by (simp add: out [symmetric])
  with written again show ?thesis by blast
qed

theorem u12_filter_idempotent_witness:
  "check_and_write_u12_file
     \<lparr>files = [''u12.tsv'' \<mapsto> ''t1'' @ [CHR 0x09] @ ''3'' @ [CHR 0x09] @ ''A'' @ [CHR 0x0A]
                    @ ''t9'' @ [CHR 0x09] @ ''12'' @ [CHR 0x09] @ ''D'' @ [CHR 0x0A],
                ''wd/u12_data.txt'' \<mapsto>
                    ''t1'' @ [CHR 0x09] @ ''3'' @ [CHR 0x09] @ ''A'' @ [CHR 0x0A]],
      dirs = {''wd''}\<rparr>
     (Some ''wd/u12_data.txt'') {|''t1''|} ''wd''
   = (Inr (Some ''wd/u12_data.txt''),
      \<lparr>files = [''u12.tsv'' \<mapsto> ''t1'' @ [CHR 0x09] @ ''3'' @ [CHR 0x09] @ ''A'' @ [CHR 0x0A]
                    @ ''t9'' @ [CHR 0x09] @ ''12'' @ [CHR 0x09] @ ''D'' @ [CHR 0x0A],
                ''wd/u12_data.txt'' \<mapsto>
                    ''t1'' @ [CHR 0x09] @ ''3'' @ [CHR 0x09] @ ''A'' @ [CHR 0x0A]],
       dirs = {''wd''}\<rparr>)"
proof -
  have run: "check_and_write_u12_file
     \<lparr>files = [''u12.tsv'' \<mapsto> ''t1'' @ [CHR 0x09] @ ''3'' @ [CHR 0x09] @ ''A'' @ [CHR 0x0A]
                    @ ''t9'' @ [CHR 0x09] @ ''12'' @ [CHR 0x09] @ ''D'' @ [CHR 0x0A]],
      dirs = {''wd''}\<rparr>
     (Some ''u12.tsv'') {|''t1''|} ''wd''
   = (Inr (Some ''wd/u12_data.txt''),
      \<lparr>files = [''u12.tsv'' \<mapsto> ''t1'' @ [CHR 0x09] @ ''3'' @ [CHR 0x09] @ ''A'' @ [CHR 0x0A]
                    @ ''t9'' @ [CHR 0x09] @ ''12'' @ [CHR 0x09] @ ''D'' @ [CHR 0x0A],
                ''wd/u12_data.txt'' \<mapsto>
                    ''t1'' @ [CHR 0x09] @ ''3'' @ [CHR 0x09] @ ''A'' @ [CHR 0x0A]],
       dirs = {''wd''}\<rparr>)"
    by (simp add: check_and_write_u12_file_def open_read_def open_write_def file_write_def
                read_lines_def u12_fields_def rstrip_def isspace_char_def isnumeric_def
                isnumeric_char_def os_path_join_def os_path_dirname_def
                U12_FILE_COLS_def U12_AD_FIELD_def Let_def)
  from u12_filter_idempotent [OF run] show ?thesis by blast
qed

text \<open>
  Claim C10. A run of \<^verbatim>\<open>check_and_write_u12_file\<close> that raises (a missing input
  file, a format error, nothing left after the filter) or that returns \<^verbatim>\<open>None\<close>
  for an absent path leaves the file system as it was: \<^verbatim>\<open>u12_data.txt\<close> is neither
  created nor written. A run that changes the file system was given a path, found the
  file, had every line pass the checks of the loop and kept at least one line.
\<close>

theorem u12_no_output_unless_success:
  shows "(isl (fst (check_and_write_u12_file fs u12_arg t_in_bed temp_wd))
            \<or> fst (check_and_write_u12_file fs u12_arg t_in_bed temp_wd) = Inr None
          \<longrightarrow> snd (check_and_write_u12_file fs u12_arg t_in_bed temp_wd) = fs)
       \<and> (snd (check_and_write_u12_file fs u12_arg t_in_bed temp_wd) \<noteq> fs
          \<longrightarrow> (\<exists>u12_path content.
                 u12_arg = Some u12_path \<and> files fs u12_path = Some content
                 \<and> (\<forall>line \<in> set (read_lines content). u12_line_passes t_in_bed line)
                 \<and> (\<exists>line \<in> set (read_lines content). u12_fields line ! 0 |\<in>| t_in_bed)))"
proof (intro conjI impI)
  assume "isl (fst (check_and_write_u12_file fs u12_arg t_in_bed temp_wd))
            \<or> fst (check_and_write_u12_file fs u12_arg t_in_bed temp_wd) = Inr None"
  then show "snd (check_and_write_u12_file fs u12_arg t_in_bed temp_wd) = fs"
    by (auto simp: check_and_write_u12_file_def Let_def
             split: option.splits sum.splits if_splits)
next
  assume changed: "snd (check_and_write_u12_file fs u12_arg t_in_bed temp_wd) \<noteq> fs"
  then obtain u12_path where arg: "u12_arg = Some u12_path"
    by (cases u12_arg) (auto simp: check_and_write_u12_file_def)
  from changed arg obtain content where content: "files fs u12_path = Some content"
    by (cases "files fs u12_path") (auto simp: check_and_write_u12_file_def open_read_def Let_def)
  from changed arg content obtain filt where
    loop: "u12_read_lines u12_path t_in_bed 1 (read_lines content) [] = Inr filt"
    by (cases "u12_read_lines u12_path t_in_bed 1 (read_lines content) []")
       (auto simp: check_and_write_u12_file_def open_read_def Let_def)
  from changed arg content loop have ne: "filt \<noteq> []"
    by (auto simp: check_and_write_u12_file_def open_read_def Let_def)
  from u12_read_lines_Inr [OF loop]
  have pass: "\<forall>line \<in> set (read_lines content). u12_line_passes t_in_bed line"
    and filt: "filt = filter (\<lambda>l. u12_fields l ! 0 |\<in>| t_in_bed) (read_lines content)"
    by simp_all
  from ne filt have "\<exists>line \<in> set (read_lines content). u12_fields line ! 0 |\<in>| t_in_bed"
    by (auto simp: filter_empty_conv)
  with arg content pass
  show "\<exists>u12_path content.
                 u12_arg = Some u12_path \<and> files fs u12_path = Some content
                 \<and> (\<forall>line \<in> set (read_lines content). u12_line_passes t_in_bed line)
                 \<and> (\<exists>line \<in> set (read_lines content). u12_fields line ! 0 |\<in>| t_in_bed)"
    by blast
qed

theorem u12_no_output_unless_success_witness:
  "snd (check_and_write_u12_file
          \<lparr>files = [''u12.tsv'' \<mapsto> ''t1'' @ [CHR 0x09] @ ''3'' @ [CHR 0x09] @ ''A'' @ [CHR 0x0A]
                    @ ''t1'' @ [CHR 0x09] @ ''x'' @ [CHR 0x09] @ ''D'' @ [CHR 0x0A]], dirs = {''wd''}\<rparr>
          (Some ''u12.tsv'') {|''t1''|} ''wd'')
   = \<lparr>files = [''u12.tsv'' \<mapsto> ''t1'' @ [CHR 0x09] @ ''3'' @ [CHR 0x09] @ ''A'' @ [CHR 0x0A]
                    @ ''t1'' @ [CHR 0x09] @ ''x'' @ [CHR 0x09] @ ''D'' @ [CHR 0x0A]], dirs = {''wd''}\<rparr>
   \<and> snd (check_and_write_u12_file \<lparr>files = Map.empty, dirs = {''wd''}\<rparr> None {|''t1''|} ''wd'') = \<lparr>files = Map.empty, dirs = {''wd''}\<rparr>
   \<and> (\<exists>line \<in> set (read_lines (''t1'' @ [CHR 0x09] @ ''3'' @ [CHR 0x09] @ ''A'' @ [CHR 0x0A])).
          u12_fields line ! 0 |\<in>| {|''t1''|})"
proof -
  have fail: "isl (fst (check_and_write_u12_file
          \<lparr>files = [''u12.tsv'' \<mapsto> ''t1'' @ [CHR 0x09] @ ''3'' @ [CHR 0x09] @ ''A'' @ [CHR 0x0A]
                    @ ''t1'' @ [CHR 0x09] @ ''x'' @ [CHR 0x09] @ ''D'' @ [CHR 0x0A]], dirs = {''wd''}\<rparr>
          (Some ''u12.tsv'') {|''t1''|} ''wd''))"
    by (simp add: check_and_write_u12_file_def open_read_def open_write_def file_write_def
                read_lines_def u12_fields_def rstrip_def
                isspace_char_def isnumeric_def isnumeric_char_def os_path_join_def os_path_dirname_def
                U12_FILE_COLS_def U12_AD_FIELD_def Let_def)
  have none: "fst (check_and_write_u12_file \<lparr>files = Map.empty, dirs = {''wd''}\<rparr> None {|''t1''|} ''wd'') = Inr None"
    by (simp add: check_and_write_u12_file_def)
  have "files (snd (check_and_write_u12_file
          \<lparr>files = [''u12.tsv'' \<mapsto> ''t1'' @ [CHR 0x09] @ ''3'' @ [CHR 0x09] @ ''A'' @ [CHR 0x0A]], dirs = {''wd''}\<rparr>
          (Some ''u12.tsv'') {|''t1''|} ''wd'')) ''wd/u12_data.txt''
        = Some (''t1'' @ [CHR 0x09] @ ''3'' @ [CHR 0x09] @ ''A'' @ [CHR 0x0A])"
    by (simp add: check_and_write_u12_file_def open_read_def open_write_def file_write_def
                read_lines_def u12_fields_def rstrip_def
                isspace_char_def isnumeric_def isnumeric_char_def os_path_join_def
                os_path_dirname_def U12_FILE_COLS_def U12_AD_FIELD_def Let_def)
  moreover have "files \<lparr>files = [''u12.tsv'' \<mapsto> ''t1'' @ [CHR 0x09] @ ''3'' @ [CHR 0x09] @ ''A'' @ [CHR 0x0A]], dirs = {''wd''}\<rparr>
                   ''wd/u12_data.txt'' = None"
    by simp
  ultimately have written: "snd (check_and_write_u12_file
          \<lparr>files = [''u12.tsv'' \<mapsto> ''t1'' @ [CHR 0x09] @ ''3'' @ [CHR 0x09] @ ''A'' @ [CHR 0x0A]], dirs = {''wd''}\<rparr>
          (Some ''u12.tsv'') {|''t1''|} ''wd'')
        \<noteq> \<lparr>files = [''u12.tsv'' \<mapsto> ''t1'' @ [CHR 0x09] @ ''3'' @ [CHR 0x09] @ ''A'' @ [CHR 0x0A]], dirs = {''wd''}\<rparr>"
    by (metis option.distinct(1))
  from u12_no_output_unless_success
            [of "\<lparr>files = [''u12.tsv'' \<mapsto> ''t1'' @ [CHR 0x09] @ ''3'' @ [CHR 0x09] @ ''A'' @ [CHR 0x0A]], dirs = {''wd''}\<rparr>"
                "Some ''u12.tsv''" "{|''t1''|}" "''wd''"] written
  have third: "\<exists>line \<in> set (read_lines (''t1'' @ [CHR 0x09] @ ''3'' @ [CHR 0x09] @ ''A'' @ [CHR 0x0A])).
          u12_fields line ! 0 |\<in>| {|''t1''|}"
    by auto
  from fail none third
       u12_no_output_unless_success
            [of "\<lparr>files = [''u12.tsv'' \<mapsto> ''t1'' @ [CHR 0x09] @ ''3'' @ [CHR 0x09] @ ''A'' @ [CHR 0x0A]
                    @ ''t1'' @ [CHR 0x09] @ ''x'' @ [CHR 0x09] @ ''D'' @ [CHR 0x0A]], dirs = {''wd''}\<rparr>"
                "Some ''u12.tsv''" "{|''t1''|}" "''wd''"]
       u12_no_output_unless_success [of "\<lparr>files = Map.empty, dirs = {''wd''}\<rparr>" None "{|''t1''|}" "''wd''"]
  show ?thesis by blast
qed

subsection \<open>The classification-result check\<close>

text \<open>
  Claim C8. For a classification-result file that exists, \<^verbatim>\<open>check_chains_classified\<close>
  raises exactly when the file has at most one line, the error is the \<^verbatim>\<open>ValueError\<close>
  whose message names the file, and for a file of two or more lines the call succeeds
  and returns nothing.
\<close>

theorem check_chains_classified_iff:
  assumes "files fs chain_results_df = Some content"
  shows "(isl (check_chains_classified fs chain_results_df)
            \<longleftrightarrow> length (read_lines content) \<le> 1)
       \<and> (length (read_lines content) \<le> 1 \<longrightarrow>
            check_chains_classified fs chain_results_df
              = Inl (ValueError (''Chain results file '' @ chain_results_df
                                   @ '' is empty! Abort.'')))
       \<and> (2 \<le> length (read_lines content) \<longrightarrow>
            check_chains_classified fs chain_results_df = Inr ())"
  using assms
  by (auto simp: check_chains_classified_def has_more_than_one_line_def open_read_def
                 chains_empty_msg_def)

theorem check_chains_classified_iff_witness:
  "isl (check_chains_classified \<lparr>files = [''loc.tsv'' \<mapsto> ''gene'' @ [CHR 0x0A]], dirs = {''wd''}\<rparr> ''loc.tsv'')
   \<and> check_chains_classified
        \<lparr>files = [''loc.tsv'' \<mapsto> ''gene'' @ [CHR 0x0A] @ ''t1'' @ [CHR 0x0A]], dirs = {''wd''}\<rparr> ''loc.tsv'' = Inr ()"
  using check_chains_classified_iff
          [of "\<lparr>files = [''loc.tsv'' \<mapsto> ''gene'' @ [CHR 0x0A]], dirs = {''wd''}\<rparr>" "''loc.tsv''" "''gene'' @ [CHR 0x0A]"]
        check_chains_classified_iff
          [of "\<lparr>files = [''loc.tsv'' \<mapsto> ''gene'' @ [CHR 0x0A] @ ''t1'' @ [CHR 0x0A]], dirs = {''wd''}\<rparr>" "''loc.tsv''"
              "''gene'' @ [CHR 0x0A] @ ''t1'' @ [CHR 0x0A]"]
  by (simp add: read_lines_def)


end
